theory Spec2Isabelle
  imports Complex_Main "HOL-Library.Sublist" "HOL-Library.AList"
begin

section \<open>JavaScript values\<close>

text \<open>
  The component receives error payloads, viewer events and props as plain
  JavaScript values. Such a value is a primitive, an array, or an object
  holding data properties. An object is the list of its own properties in
  insertion order; a key is looked up with \<open>map_of\<close>. Numbers carry a real
  payload (the program never does arithmetic on the numbers it receives, it
  only tests them for zero and forwards them), with \<open>NaN\<close> kept apart because
  it is falsy. Function-valued properties are not data and have no
  representation.
\<close>

datatype jsval =
    JUndefined
  | JNull
  | JBool bool
  | JNum real
  | JNaN
  | JStr string
  | JArr "jsval list"
  | JObj "(string \<times> jsval) list"

datatype js_error = TypeError

text \<open>ToBoolean: \<open>false\<close>, \<open>0\<close>, \<open>NaN\<close>, \<open>""\<close>, \<open>null\<close> and \<open>undefined\<close> are falsy.\<close>

fun truthy :: "jsval \<Rightarrow> bool" where
  "truthy JUndefined = False"
| "truthy JNull = False"
| "truthy (JBool b) = b"
| "truthy (JNum r) = (r \<noteq> 0)"
| "truthy JNaN = False"
| "truthy (JStr s) = (s \<noteq> [])"
| "truthy (JArr xs) = True"
| "truthy (JObj ps) = True"

text \<open>\<open>a && b\<close> yields \<open>a\<close> when it is falsy and \<open>b\<close> otherwise.\<close>

definition js_and :: "jsval \<Rightarrow> jsval \<Rightarrow> jsval" where
  "js_and a b = (if truthy a then b else a)"

text \<open>\<open>a ?? b\<close> yields \<open>b\<close> only when \<open>a\<close> is \<open>null\<close> or \<open>undefined\<close>.\<close>

fun nullish :: "jsval \<Rightarrow> bool" where
  "nullish JUndefined = True"
| "nullish JNull = True"
| "nullish v = False"

definition coalesce :: "jsval \<Rightarrow> jsval \<Rightarrow> jsval" where
  "coalesce a b = (if nullish a then b else a)"

text \<open>
  Reading a named property, as in \<open>v?.k\<close> or in destructuring a value that is
  not nullish. The keys this program reads (\<open>detail\<close>, \<open>yaw\<close>, \<open>pitch\<close>,
  \<open>recording\<close>, \<open>xyz\<close>, \<open>id\<close>, \<open>message\<close>) are no built-in property of a
  string, number, boolean or array, so only an object can answer.
\<close>

fun getProp :: "jsval \<Rightarrow> string \<Rightarrow> jsval" where
  "getProp (JObj ps) k = (case map_of ps k of None \<Rightarrow> JUndefined | Some v \<Rightarrow> v)"
| "getProp v k = JUndefined"

text \<open>
  Destructuring \<open>const {k} = v\<close> and a destructured parameter throw a
  TypeError when \<open>v\<close> is \<open>null\<close> or \<open>undefined\<close>.
\<close>

definition destructure :: "jsval \<Rightarrow> string \<Rightarrow> js_error + jsval" where
  "destructure v k = (if nullish v then Inl TypeError else Inr (getProp v k))"

text \<open>Decimal name of an array index, the property key of an element.\<close>

definition digit_char :: "nat \<Rightarrow> char" where
  "digit_char d = char_of (48 + d)"

fun index_key :: "nat \<Rightarrow> string" where
  "index_key n =
     (if n < 10 then [digit_char n] else index_key (n div 10) @ [digit_char (n mod 10)])"

text \<open>
  Indexed read \<open>v?.[i]\<close>: an element of an array, a one-character string of
  a string, the property named by the index of an object; \<open>undefined\<close> out
  of range and on every other value.
\<close>

fun getIndex :: "jsval \<Rightarrow> nat \<Rightarrow> jsval" where
  "getIndex (JArr xs) i = (if i < length xs then xs ! i else JUndefined)"
| "getIndex (JStr s) i = (if i < length s then JStr [s ! i] else JUndefined)"
| "getIndex (JObj ps) i = getProp (JObj ps) (index_key i)"
| "getIndex v i = JUndefined"

text \<open>
  Object spread \<open>{...v}\<close> copies the own enumerable properties: those of an
  object, the elements of an array and the characters of a string under their
  index keys, nothing for the other values.
\<close>

fun ownProps :: "jsval \<Rightarrow> (string \<times> jsval) list" where
  "ownProps (JObj ps) = ps"
| "ownProps (JArr xs) = map (\<lambda>i. (index_key i, xs ! i)) [0..<length xs]"
| "ownProps (JStr s) = map (\<lambda>i. (index_key i, JStr [s ! i])) [0..<length s]"
| "ownProps v = []"

text \<open>
  Writing a property in an object literal after a spread: an existing key
  keeps its place and takes the new value, a new key goes last.
\<close>

definition setProp :: "string \<Rightarrow> jsval \<Rightarrow> (string \<times> jsval) list \<Rightarrow> (string \<times> jsval) list" where
  "setProp k v ps = AList.update k v ps"

section \<open>Error message derivation\<close>

text \<open>
  \<open>String.prototype.indexOf\<close>: the first position at which the needle starts,
  \<open>-1\<close> when it occurs nowhere.
\<close>

fun str_indexOf_from :: "string \<Rightarrow> string \<Rightarrow> nat \<Rightarrow> int" where
  "str_indexOf_from [] n i = (if n = [] then int i else - 1)"
| "str_indexOf_from (c # cs) n i =
     (if prefix n (c # cs) then int i else str_indexOf_from cs n (Suc i))"

definition str_indexOf :: "string \<Rightarrow> string \<Rightarrow> int" where
  "str_indexOf s n = str_indexOf_from s n 0"

text \<open>
  \<open>Array.prototype.indexOf\<close> with a string as the element searched for: strict
  equality holds exactly for an element that is the same string.
\<close>

fun arr_indexOf_from :: "jsval list \<Rightarrow> string \<Rightarrow> nat \<Rightarrow> int" where
  "arr_indexOf_from [] n i = - 1"
| "arr_indexOf_from (x # xs) n i =
     (if x = JStr n then int i else arr_indexOf_from xs n (Suc i))"

definition arr_indexOf :: "jsval list \<Rightarrow> string \<Rightarrow> int" where
  "arr_indexOf xs n = arr_indexOf_from xs n 0"

text \<open>
  The optional call \<open>error?.indexOf?.(needle)\<close>. A string and an array have
  the method. An object answers with its own \<open>indexOf\<close> property: nothing is
  called when it is absent, \<open>undefined\<close> or \<open>null\<close>, and calling any other data
  value throws a TypeError. \<open>None\<close> stands for the result \<open>undefined\<close>.
\<close>

fun optcall_indexOf :: "jsval \<Rightarrow> string \<Rightarrow> js_error + int option" where
  "optcall_indexOf (JStr s) n = Inr (Some (str_indexOf s n))"
| "optcall_indexOf (JArr xs) n = Inr (Some (arr_indexOf xs n))"
| "optcall_indexOf (JObj ps) n =
     (if nullish (getProp (JObj ps) ''indexOf'') then Inr None else Inl TypeError)"
| "optcall_indexOf v n = Inr None"

text \<open>\<open>r >= 0\<close>: \<open>undefined\<close> converts to \<open>NaN\<close>, which compares false.\<close>

fun ge_zero :: "int option \<Rightarrow> bool" where
  "ge_zero None = False"
| "ge_zero (Some i) = (0 \<le> i)"

text \<open>What the alert shows: a localized message by its identifier, or a plain value.\<close>

datatype node = Message string | Raw jsval

definition unauthorized_text :: string where
  "unauthorized_text = ''init::Loading user info failed with status code 401''"

definition getErrorMessage :: "jsval \<Rightarrow> js_error + node" where
  "getErrorMessage err =
     (case optcall_indexOf err unauthorized_text of
        Inl e \<Rightarrow> Inl e
      | Inr r \<Rightarrow>
          if ge_zero r then Inr (Message ''streetView.cyclomedia.invalidCredentials'')
          else Inr (Raw (coalesce (getProp err ''message'') (JStr ''Unknown error''))))"

section \<open>Viewer event handlers\<close>

text \<open>
  The host's callbacks \<open>setPov\<close> and \<open>setLocation\<close>, the library's operations
  and \<open>console.error\<close> are observed as the sequence of calls made.
  \<^item> \<open>ApiInit a t u p k o\<close> is \<open>a.init({targetElement: t, username: u, password: p,
    apiKey: k, loginOauth: false, srs: 'EPSG:4326', locale: 'en-us', ...o})\<close>;
  \<^item> \<open>ApiDestroy a t\<close> is \<open>a.destroy({targetElement: t})\<close>;
  \<^item> \<open>ApiOpen a q srs n\<close> is \<open>a.open(q, options)\<close> with the fixed panorama
    options and the given \<open>srs\<close>; \<open>n\<close> names the promise it returns;
  \<^item> \<open>ViewerOn v e h\<close> and \<open>ViewerOff v e h\<close> are \<open>v.on(e, h)\<close> and \<open>v.off(e, h)\<close>;
  \<^item> \<open>ConsoleError prefix x\<close> is \<open>console.error(prefix + x)\<close>, or
    \<open>console.error(x)\<close> when the prefix is empty.

  A handler is a closure created by one run of the open-image effect; the
  run is named by the number of its cell of closure variables.
\<close>

type_synonym api = nat
type_synonym element = nat
type_synonym viewer = nat
type_synonym cell = nat

datatype event_name = VIEW_CHANGE | RECORDING_CLICK

datatype handler = ViewChangeHandler cell | RecordingClickHandler cell

datatype call =
    SetPov jsval
  | SetLocation jsval
  | ApiInit api "element option" jsval jsval jsval jsval
  | ApiDestroy api "element option"
  | ApiOpen api jsval string cell
  | ViewerOn viewer event_name handler
  | ViewerOff viewer event_name "handler option"
  | ConsoleError string jsval

text \<open>
  The second parameter of both handlers is \<open>{detail} = {}\<close>: an argument that
  is \<open>undefined\<close> takes the default, then the argument is destructured.
\<close>

definition param_detail :: "jsval \<Rightarrow> js_error + jsval" where
  "param_detail ev = destructure (if ev = JUndefined then JObj [] else ev) ''detail''"

definition changeView :: "viewer \<Rightarrow> jsval \<Rightarrow> call list \<Rightarrow> js_error + call list" where
  "changeView v ev tr =
     (case param_detail ev of
        Inl e \<Rightarrow> Inl e
      | Inr detail \<Rightarrow>
          let d = coalesce detail (JObj []);
              heading = getProp d ''yaw'';
              pitch = getProp d ''pitch''
          in Inr (tr @ [SetPov (JObj [(''heading'', heading), (''pitch'', pitch)])]))"

definition changeRecording :: "viewer \<Rightarrow> jsval \<Rightarrow> call list \<Rightarrow> js_error + call list" where
  "changeRecording v ev tr =
     (case param_detail ev of
        Inl e \<Rightarrow> Inl e
      | Inr detail \<Rightarrow>
          let recording = getProp (coalesce detail (JObj [])) ''recording'';
              xyz = getProp recording ''xyz'';
              ident = getProp recording ''id''
          in if truthy (js_and xyz ident)
             then Inr (tr @ [SetLocation (JObj
                    [(''latLng'', JObj [(''lat'', getIndex xyz 1), (''lng'', getIndex xyz 0)]),
                     (''properties'', JObj (setProp ''imageId'' ident (ownProps recording)))])])
             else Inr tr)"

text \<open>
  The subscribed closures \<open>(...args) => changeView(panoramaViewer, ...args)\<close>
  pass the arguments on: the event is the first one, \<open>undefined\<close> when the
  viewer passes none.
\<close>

definition first_arg :: "jsval list \<Rightarrow> jsval" where
  "first_arg args = (case args of [] \<Rightarrow> JUndefined | a # _ \<Rightarrow> a)"

definition viewChangeHandler :: "viewer \<Rightarrow> jsval list \<Rightarrow> call list \<Rightarrow> js_error + call list" where
  "viewChangeHandler v args tr = changeView v (first_arg args) tr"

definition recordingClickHandler :: "viewer \<Rightarrow> jsval list \<Rightarrow> call list \<Rightarrow> js_error + call list" where
  "recordingClickHandler v args tr = changeRecording v (first_arg args) tr"

section \<open>Presentation\<close>

text \<open>
  The props and the React state of \<open>CyclomediaView\<close>. The library's entry
  object and the target element are known by identity only; \<open>None\<close> is
  \<open>undefined\<close>. \<open>initializing\<close> and \<open>initialized\<close> only ever hold the
  literals \<open>true\<close> and \<open>false\<close>. \<open>reload\<close> starts at 1 and only grows by 1.
\<close>

record ui_state =
  apiKey :: jsval
  imageId :: jsval
  mapPointVisible :: jsval
  initOptions :: jsval
  StreetSmartApi :: "api option"
  targetElement :: "element option"
  initializing :: bool
  initialized :: bool
  reload :: nat
  error :: jsval
  username :: jsval
  password :: jsval

text \<open>
  The view flags are used as conditions only (\<open>!flag\<close>, \<open>flag ? a : b\<close>), so
  each is modelled by its truth value: a chain \<open>a && b\<close> is truthy exactly
  when both operands are.
\<close>

definition hasCredentials :: "'a ui_state_scheme \<Rightarrow> bool" where
  "hasCredentials s = truthy (js_and (username s) (password s))"

definition showCredentialsForm :: "'a ui_state_scheme \<Rightarrow> bool" where
  "showCredentialsForm s = (\<not> hasCredentials s)"

definition showPanoramaViewer :: "'a ui_state_scheme \<Rightarrow> bool" where
  "showPanoramaViewer s =
     (StreetSmartApi s \<noteq> None \<and> initialized s \<and> truthy (imageId s)
      \<and> \<not> showCredentialsForm s \<and> \<not> truthy (error s))"

definition showEmptyView :: "'a ui_state_scheme \<Rightarrow> bool" where
  "showEmptyView s = (\<not> showCredentialsForm s \<and> \<not> showPanoramaViewer s \<and> \<not> truthy (error s))"

text \<open>The \<open>display\<close> style of the iframe that holds the viewer, and of the alert.\<close>

definition iframe_display :: "'a ui_state_scheme \<Rightarrow> string" where
  "iframe_display s = (if showPanoramaViewer s then ''block'' else ''none'')"

definition alert_display :: "'a ui_state_scheme \<Rightarrow> string" where
  "alert_display s = (if truthy (error s) then ''block'' else ''none'')"

text \<open>
  \<open>EmptyStreetView\<close> is a placeholder with a loading flag and the message
  identifier of its description, if any. \<open>EmptyView\<close> returns one of them or
  \<open>null\<close> (here \<open>None\<close>).
\<close>

datatype placeholder = EmptyStreetView bool "string option"

definition EmptyView :: "bool \<Rightarrow> bool \<Rightarrow> api option \<Rightarrow> jsval \<Rightarrow> placeholder option" where
  "EmptyView initializing' initialized' api mapPointVisible' =
     (if initialized' \<and> \<not> truthy mapPointVisible'
        then Some (EmptyStreetView False (Some ''streetView.cyclomedia.zoomIn''))
      else if initialized' then Some (EmptyStreetView False None)
      else if initializing'
        then Some (EmptyStreetView True (Some ''streetView.cyclomedia.initializing''))
      else if api = None
        then Some (EmptyStreetView True (Some ''streetView.cyclomedia.loadingAPI''))
      else None)"

text \<open>The empty-state slot of the rendering: \<open>showEmptyView ? <EmptyView .../> : null\<close>.\<close>

definition empty_view :: "'a ui_state_scheme \<Rightarrow> placeholder option" where
  "empty_view s =
     (if showEmptyView s
      then EmptyView (initializing s) (initialized s) (StreetSmartApi s) (mapPointVisible s)
      else None)"

section \<open>Lifecycle and viewer session\<close>

text \<open>
  The third-party library is a parameter. Its \<open>destroy\<close> is called through
  \<open>StreetSmartApi?.destroy?.(...)\<close>, so it may be missing, and inside
  \<open>try\<close>, so it may throw: \<open>destroy_throws\<close> gives the value thrown, if any.
  The other operations (\<open>init\<close>, \<open>open\<close>, \<open>on\<close>, \<open>off\<close>) are called
  unguarded and are taken to return; \<open>init\<close> and \<open>open\<close> return promises,
  whose settlement arrives later as an event.
\<close>

record library =
  has_destroy :: "api \<Rightarrow> bool"
  destroy_throws :: "api \<Rightarrow> element option \<Rightarrow> jsval option"

text \<open>
  A cleanup is the closure an effect returned: \<open>() => {}\<close>, or the one that
  captured the library object and the target element of its render, or the
  one that shares the variables \<open>panoramaViewer\<close>, \<open>viewChangeHandler\<close> and
  \<open>recordingClickHandler\<close> with the \<open>then\<close> callback of its \<open>open\<close> call.
\<close>

datatype init_cleanup = InitNoop | InitDestroy api "element option"

datatype open_cleanup = OpenNoop | OpenOff cell

record session_vars =
  panoramaViewer :: "viewer option"
  viewChangeH :: "handler option"
  recordingClickH :: "handler option"
  settled :: bool

text \<open>
  The mounted component: props and state, and what React keeps for the two
  effects (the dependency values of the last run and the cleanup it
  returned), the cells of closure variables of the open-image effect, the
  number of \<open>init\<close> promises not yet settled, and the calls made so far.
\<close>

record component = ui_state +
  init_deps :: "(api option \<times> jsval \<times> jsval \<times> jsval \<times> nat) option"
  init_cleanup_fn :: init_cleanup
  open_deps :: "(api option \<times> bool \<times> jsval) option"
  open_cleanup_fn :: open_cleanup
  sessions :: "session_vars list"
  init_pending :: nat
  mounted :: bool
  trace :: "call list"

text \<open>
  A computation that may throw yields the value thrown, if any, and the calls
  made. \<open>try { body } catch (e) { console.error(e) }\<close> never throws.
\<close>

definition call_destroy ::
  "library \<Rightarrow> api \<Rightarrow> element option \<Rightarrow> call list \<Rightarrow> jsval option \<times> call list" where
  "call_destroy lib a t tr =
     (if has_destroy lib a then (destroy_throws lib a t, tr @ [ApiDestroy a t]) else (None, tr))"

definition try_console_error ::
  "(call list \<Rightarrow> jsval option \<times> call list) \<Rightarrow> call list \<Rightarrow> jsval option \<times> call list" where
  "try_console_error body tr =
     (case body tr of
        (None, tr') \<Rightarrow> (None, tr')
      | (Some e, tr') \<Rightarrow> (None, tr' @ [ConsoleError [] e]))"

fun run_init_cleanup ::
  "library \<Rightarrow> init_cleanup \<Rightarrow> call list \<Rightarrow> jsval option \<times> call list" where
  "run_init_cleanup lib InitNoop tr = (None, tr)"
| "run_init_cleanup lib (InitDestroy a t) tr = try_console_error (call_destroy lib a t) tr"

text \<open>The body of the first effect (initialize API).\<close>

definition init_guard :: "'a ui_state_scheme \<Rightarrow> bool" where
  "init_guard s =
     (\<not> (StreetSmartApi s = None \<or> \<not> truthy (username s) \<or> \<not> truthy (password s)
         \<or> \<not> truthy (apiKey s)))"

definition init_effect :: "component \<Rightarrow> component" where
  "init_effect c =
     (case StreetSmartApi c of
        None \<Rightarrow> c\<lparr>init_cleanup_fn := InitNoop\<rparr>
      | Some a \<Rightarrow>
          if \<not> truthy (username c) \<or> \<not> truthy (password c) \<or> \<not> truthy (apiKey c)
          then c\<lparr>init_cleanup_fn := InitNoop\<rparr>
          else c\<lparr>initializing := True,
                 trace := trace c @ [ApiInit a (targetElement c) (username c) (password c)
                                       (apiKey c) (initOptions c)],
                 init_pending := Suc (init_pending c),
                 init_cleanup_fn := InitDestroy a (targetElement c)\<rparr>)"

text \<open>
  The body of the second effect (open image). A run that passes the guard
  gets a fresh cell for its three \<open>let\<close> variables.
\<close>

definition new_session :: session_vars where
  "new_session =
     \<lparr>panoramaViewer = None, viewChangeH = None, recordingClickH = None, settled = False\<rparr>"

definition open_effect :: "component \<Rightarrow> component" where
  "open_effect c =
     (case StreetSmartApi c of
        None \<Rightarrow> c\<lparr>open_cleanup_fn := OpenNoop\<rparr>
      | Some a \<Rightarrow>
          if \<not> truthy (imageId c) \<or> \<not> initialized c
          then c\<lparr>open_cleanup_fn := OpenNoop\<rparr>
          else c\<lparr>sessions := sessions c @ [new_session],
                 trace := trace c @ [ApiOpen a (imageId c) ''EPSG:4326'' (length (sessions c))],
                 open_cleanup_fn := OpenOff (length (sessions c))\<rparr>)"

text \<open>The cleanup of the second effect, reading the variables of its own cell.\<close>

definition session_offs :: "session_vars \<Rightarrow> call list" where
  "session_offs sv =
     (case (panoramaViewer sv, viewChangeH sv) of
        (Some v, Some h) \<Rightarrow>
          [ViewerOff v VIEW_CHANGE (Some h), ViewerOff v RECORDING_CLICK (recordingClickH sv)]
      | _ \<Rightarrow> [])"

fun run_open_cleanup :: "open_cleanup \<Rightarrow> session_vars list \<Rightarrow> call list \<Rightarrow> call list" where
  "run_open_cleanup OpenNoop ss tr = tr"
| "run_open_cleanup (OpenOff n) ss tr = (if n < length ss then tr @ session_offs (ss ! n) else tr)"

text \<open>
  React's contract for \<open>useEffect(f, deps)\<close>, which the component relies on:
  after a render, an effect whose dependency values differ from those of its
  last run (or that has not run yet) is run again; the cleanups of all such
  effects run first, in the order of the effects, then their bodies, in the
  same order; a cleanup runs once. On unmount every pending cleanup runs.
  The dependencies here are an object known by identity, a boolean, a number
  and values documented as strings, on which \<open>Object.is\<close> is equality.
\<close>

definition current_init_deps ::
  "'a ui_state_scheme \<Rightarrow> api option \<times> jsval \<times> jsval \<times> jsval \<times> nat" where
  "current_init_deps s = (StreetSmartApi s, username s, password s, apiKey s, reload s)"

definition current_open_deps :: "'a ui_state_scheme \<Rightarrow> api option \<times> bool \<times> jsval" where
  "current_open_deps s = (StreetSmartApi s, initialized s, imageId s)"

definition cleanup_init :: "library \<Rightarrow> component \<Rightarrow> component" where
  "cleanup_init lib c =
     c\<lparr>trace := snd (run_init_cleanup lib (init_cleanup_fn c) (trace c)),
       init_cleanup_fn := InitNoop\<rparr>"

definition cleanup_open :: "component \<Rightarrow> component" where
  "cleanup_open c =
     c\<lparr>trace := run_open_cleanup (open_cleanup_fn c) (sessions c) (trace c),
       open_cleanup_fn := OpenNoop\<rparr>"

definition commit :: "library \<Rightarrow> component \<Rightarrow> component" where
  "commit lib c =
     (let ch1 = (init_deps c \<noteq> Some (current_init_deps c));
          ch2 = (open_deps c \<noteq> Some (current_open_deps c));
          c1 = (if ch1 then cleanup_init lib c else c);
          c2 = (if ch2 then cleanup_open c1 else c1);
          c3 = (if ch1 then (init_effect c2)\<lparr>init_deps := Some (current_init_deps c)\<rparr> else c2);
          c4 = (if ch2 then (open_effect c3)\<lparr>open_deps := Some (current_open_deps c)\<rparr> else c3)
      in c4)"

definition unmount :: "library \<Rightarrow> component \<Rightarrow> component" where
  "unmount lib c = (cleanup_open (cleanup_init lib c))\<lparr>mounted := False\<rparr>"

text \<open>
  What happens to the component: the iframe loads, the credentials form or
  the host passes new values, a promise settles, the reload button is
  clicked, the component unmounts.
\<close>

datatype event =
    IframeLoad "element option" "api option"
  | SetCredentials jsval
  | SetProps jsval jsval jsval jsval
  | InitResolved
  | InitRejected jsval
  | OpenResolved cell "viewer list option"
  | OpenRejected cell jsval
  | ReloadClick
  | Unmount

text \<open>
  A promise settles once and only after its call; the reload button exists
  only while \<open>initialized\<close> holds, inside the alert, which is displayed only
  while an error is set.
\<close>

fun enabled :: "event \<Rightarrow> component \<Rightarrow> bool" where
  "enabled InitResolved c = (0 < init_pending c)"
| "enabled (InitRejected err) c = (0 < init_pending c)"
| "enabled (OpenResolved n res) c = (n < length (sessions c) \<and> \<not> settled (sessions c ! n))"
| "enabled (OpenRejected n err) c = (n < length (sessions c) \<and> \<not> settled (sessions c ! n))"
| "enabled ReloadClick c = (mounted c \<and> initialized c \<and> truthy (error c))"
| "enabled e c = mounted c"

text \<open>
  The part of a callback that is not a state update: it happens whether or
  not the component is still mounted. The \<open>then\<close> callback of \<open>open\<close> keeps
  the first viewer of a truthy result and subscribes the two new closures.
\<close>

fun notify :: "event \<Rightarrow> component \<Rightarrow> component" where
  "notify InitResolved c = c\<lparr>init_pending := init_pending c - 1\<rparr>"
| "notify (InitRejected err) c =
     c\<lparr>init_pending := init_pending c - 1,
       trace := trace c @ [ConsoleError ''Cyclomedia API: init: error: '' err]\<rparr>"
| "notify (OpenResolved n res) c =
     (case res of
        Some (v # vs) \<Rightarrow>
          c\<lparr>sessions := (sessions c)[n :=
                \<lparr>panoramaViewer = Some v, viewChangeH = Some (ViewChangeHandler n),
                 recordingClickH = Some (RecordingClickHandler n), settled = True\<rparr>],
            trace := trace c @ [ViewerOn v VIEW_CHANGE (ViewChangeHandler n),
                                ViewerOn v RECORDING_CLICK (RecordingClickHandler n)]\<rparr>
      | _ \<Rightarrow> c\<lparr>sessions := (sessions c)[n := (sessions c ! n)\<lparr>settled := True\<rparr>]\<rparr>)"
| "notify (OpenRejected n err) c =
     c\<lparr>sessions := (sessions c)[n := (sessions c ! n)\<lparr>settled := True\<rparr>],
       trace := trace c @ [ConsoleError ''Cyclomedia API: open: error: '' err]\<rparr>"
| "notify e c = c"

text \<open>The state updates of a callback; React drops them once the component is unmounted.\<close>

fun set_state :: "event \<Rightarrow> component \<Rightarrow> component" where
  "set_state (IframeLoad t a) c = c\<lparr>targetElement := t, StreetSmartApi := a\<rparr>"
| "set_state (SetCredentials cr) c =
     c\<lparr>username := getProp cr ''username'', password := getProp cr ''password''\<rparr>"
| "set_state (SetProps k i m opts) c =
     c\<lparr>apiKey := k, imageId := i, mapPointVisible := m, initOptions := opts\<rparr>"
| "set_state InitResolved c = c\<lparr>initializing := False, initialized := True\<rparr>"
| "set_state (InitRejected err) c = c\<lparr>initializing := False, error := err\<rparr>"
| "set_state (OpenResolved n res) c = c"
| "set_state (OpenRejected n err) c = c\<lparr>error := err\<rparr>"
| "set_state ReloadClick c = c\<lparr>error := JNull, reload := reload c + 1\<rparr>"
| "set_state Unmount c = c"

definition step :: "library \<Rightarrow> event \<Rightarrow> component \<Rightarrow> component" where
  "step lib e c =
     (if \<not> enabled e c then c
      else if e = Unmount then unmount lib c
      else if mounted c then commit lib (set_state e (notify e c))
      else notify e c)"

fun run :: "library \<Rightarrow> event list \<Rightarrow> component \<Rightarrow> component" where
  "run lib [] c = c"
| "run lib (e # es) c = run lib es (step lib e c)"

text \<open>
  The first render: the given props, the stored credentials, the initial
  values of \<open>useState\<close>; then the effects run for the first time.
\<close>

definition mount :: "library \<Rightarrow> jsval \<Rightarrow> jsval \<Rightarrow> jsval \<Rightarrow> jsval \<Rightarrow> jsval \<Rightarrow> component" where
  "mount lib k i m opts cr =
     commit lib
       \<lparr>apiKey = k, imageId = i, mapPointVisible = m, initOptions = opts,
        StreetSmartApi = None, targetElement = None,
        initializing = False, initialized = False, reload = 1, error = JNull,
        username = getProp cr ''username'', password = getProp cr ''password'',
        init_deps = None, init_cleanup_fn = InitNoop,
        open_deps = None, open_cleanup_fn = OpenNoop,
        sessions = [], init_pending = 0, mounted = True, trace = []\<rparr>"

text \<open>
  Replaying a sequence of calls against the set of active subscriptions: a
  \<open>v.off(e, h)\<close> is accepted only when \<open>h\<close> is at that moment subscribed to
  \<open>e\<close> on that same viewer \<open>v\<close>, and then ends that subscription. The result
  is \<open>None\<close> as soon as one \<open>off\<close> names another viewer, another handler, or a
  subscription already ended.
\<close>

fun subscriptions ::
  "call list \<Rightarrow> (viewer \<times> event_name \<times> handler) list
     \<Rightarrow> (viewer \<times> event_name \<times> handler) list option" where
  "subscriptions [] act = Some act"
| "subscriptions (ViewerOn v e h # cs) act = subscriptions cs ((v, e, h) # act)"
| "subscriptions (ViewerOff v e ho # cs) act =
     (case ho of
        None \<Rightarrow> None
      | Some h \<Rightarrow>
          if (v, e, h) \<in> set act then subscriptions cs (removeAll (v, e, h) act) else None)"
| "subscriptions (x # cs) act = subscriptions cs act"

text \<open>An \<open>init\<close> call made with username, password and API key all present.\<close>

fun init_call_ok :: "call \<Rightarrow> bool" where
  "init_call_ok (ApiInit a t u p k opts) = (truthy u \<and> truthy p \<and> truthy k)"
| "init_call_ok x = True"

fun is_init :: "call \<Rightarrow> bool" where
  "is_init (ApiInit a t u p k opts) = True"
| "is_init x = False"

fun is_destroy :: "call \<Rightarrow> bool" where
  "is_destroy (ApiDestroy a t) = True"
| "is_destroy x = False"

fun is_open :: "call \<Rightarrow> bool" where
  "is_open (ApiOpen a q r n) = True"
| "is_open x = False"

fun is_off :: "call \<Rightarrow> bool" where
  "is_off (ViewerOff v e h) = True"
| "is_off x = False"

section \<open>Calls made by one step\<close>

text \<open>
  The calls a cleanup or an effect body adds to those made so far, as
  functions of the state it runs in: the statements below compare the code
  with them.
\<close>

fun destroy_calls :: "library \<Rightarrow> init_cleanup \<Rightarrow> call list" where
  "destroy_calls lib InitNoop = []"
| "destroy_calls lib (InitDestroy a t) =
     (if has_destroy lib a
      then ApiDestroy a t # (case destroy_throws lib a t of None \<Rightarrow> [] | Some e \<Rightarrow> [ConsoleError [] e])
      else [])"

definition offs_of :: "component \<Rightarrow> call list" where
  "offs_of c =
     (case open_cleanup_fn c of
        OpenNoop \<Rightarrow> []
      | OpenOff n \<Rightarrow> if n < length (sessions c) then session_offs (sessions c ! n) else [])"

definition init_calls :: "'a ui_state_scheme \<Rightarrow> call list" where
  "init_calls s =
     (case StreetSmartApi s of
        None \<Rightarrow> []
      | Some a \<Rightarrow>
          if init_guard s
          then [ApiInit a (targetElement s) (username s) (password s) (apiKey s) (initOptions s)]
          else [])"

definition open_guard :: "'a ui_state_scheme \<Rightarrow> bool" where
  "open_guard s = (\<not> (StreetSmartApi s = None \<or> \<not> truthy (imageId s) \<or> \<not> initialized s))"

definition open_calls :: "component \<Rightarrow> call list" where
  "open_calls c =
     (case StreetSmartApi c of
        None \<Rightarrow> []
      | Some a \<Rightarrow>
          if open_guard c then [ApiOpen a (imageId c) ''EPSG:4326'' (length (sessions c))] else [])"

definition init_changed :: "component \<Rightarrow> bool" where
  "init_changed c = (init_deps c \<noteq> Some (current_init_deps c))"

definition open_changed :: "component \<Rightarrow> bool" where
  "open_changed c = (open_deps c \<noteq> Some (current_open_deps c))"

section \<open>Invariants\<close>

text \<open>
  The cell of the pending open-image cleanup holds a viewer only together
  with its own two handlers, both subscribed on that viewer at this moment.
\<close>

fun is_on :: "call \<Rightarrow> bool" where
  "is_on (ViewerOn v e h) = True"
| "is_on x = False"

definition cell_ok :: "cell \<Rightarrow> session_vars \<Rightarrow> (viewer \<times> event_name \<times> handler) list \<Rightarrow> bool" where
  "cell_ok n sv act =
     (case panoramaViewer sv of
        None \<Rightarrow> True
      | Some v \<Rightarrow>
          viewChangeH sv = Some (ViewChangeHandler n)
          \<and> recordingClickH sv = Some (RecordingClickHandler n)
          \<and> (v, VIEW_CHANGE, ViewChangeHandler n) \<in> set act
          \<and> (v, RECORDING_CLICK, RecordingClickHandler n) \<in> set act)"

definition subs_inv :: "component \<Rightarrow> bool" where
  "subs_inv c =
     (case subscriptions (trace c) [] of
        None \<Rightarrow> False
      | Some act \<Rightarrow>
          (case open_cleanup_fn c of
             OpenNoop \<Rightarrow> True
           | OpenOff n \<Rightarrow> n < length (sessions c) \<and> cell_ok n (sessions c ! n) act))"

text \<open>
  Every \<open>init\<close> call had its inputs present, and a pending destroy cleanup
  holds the library object and the target element of the latest \<open>init\<close> call.
\<close>

fun init_target :: "call \<Rightarrow> (api \<times> element option) option" where
  "init_target (ApiInit a t u p k opts) = Some (a, t)"
| "init_target x = None"

definition last_init :: "call list \<Rightarrow> (api \<times> element option) option" where
  "last_init tr = (case rev (filter is_init tr) of [] \<Rightarrow> None | x # xs \<Rightarrow> init_target x)"

definition init_inv :: "component \<Rightarrow> bool" where
  "init_inv c =
     (list_all init_call_ok (trace c)
      \<and> (case init_cleanup_fn c of
            InitNoop \<Rightarrow> True
          | InitDestroy a t \<Rightarrow> last_init (trace c) = Some (a, t)))"

text \<open>
  Between two steps of a mounted component both effects have run for the
  current dependency values, and the pending cleanup of the first effect is
  the destroying one exactly when its guard passed.
\<close>

definition cleanup_matches :: "component \<Rightarrow> bool" where
  "cleanup_matches c =
     (case init_cleanup_fn c of
        InitNoop \<Rightarrow> \<not> init_guard c
      | InitDestroy a t \<Rightarrow> init_guard c \<and> StreetSmartApi c = Some a)"

definition stable :: "component \<Rightarrow> bool" where
  "stable c =
     (mounted c \<longrightarrow>
        init_deps c = Some (current_init_deps c) \<and> open_deps c = Some (current_open_deps c)
        \<and> cleanup_matches c)"

section \<open>Sample inputs\<close>

text \<open>
  A state in which the panorama is shown: library loaded, initialized,
  credentials and an image identifier present, no error.
\<close>

definition viewing_state :: ui_state where
  "viewing_state =
     \<lparr>apiKey = JStr ''key'', imageId = JStr ''img-1'', mapPointVisible = JBool True,
      initOptions = JUndefined, StreetSmartApi = Some 0, targetElement = Some 0,
      initializing = False, initialized = True, reload = 1, error = JNull,
      username = JStr ''user'', password = JStr ''secret''\<rparr>"

text \<open>The recording-click and view-change events of the specification's examples.\<close>

definition recording_event :: "jsval \<Rightarrow> jsval" where
  "recording_event r = JObj [(''type'', JStr ''RECORDING_CLICK''), (''detail'', JObj [(''recording'', r)])]"

definition view_event :: jsval where
  "view_event =
     JObj [(''type'', JStr ''VIEW_CHANGE''),
           (''detail'', JObj [(''yaw'', JNum 45), (''pitch'', JNum (- 10))])]"

text \<open>
  A library whose \<open>destroy\<close> returns, and one whose \<open>destroy\<close> always throws.
\<close>

definition quiet_library :: library where
  "quiet_library = \<lparr>has_destroy = (\<lambda>a. True), destroy_throws = (\<lambda>a t. None)\<rparr>"

definition throwing_library :: library where
  "throwing_library =
     \<lparr>has_destroy = (\<lambda>a. True), destroy_throws = (\<lambda>a t. Some (JStr ''destroy failed''))\<rparr>"

text \<open>
  A component mounted with an API key, an image identifier and stored
  credentials, and three histories of it: the panorama opened on viewer 5;
  the \<open>open\<close> call rejected; the credentials cleared after that rejection.
\<close>

definition sample_credentials :: jsval where
  "sample_credentials = JObj [(''username'', JStr ''user''), (''password'', JStr ''secret'')]"

definition sample_mount :: "library \<Rightarrow> component" where
  "sample_mount lib = mount lib (JStr ''key'') (JStr ''img-1'') (JBool True) JUndefined sample_credentials"

definition to_viewing :: "event list" where
  "to_viewing = [IframeLoad (Some 3) (Some 1), InitResolved, OpenResolved 0 (Some [5])]"

definition to_failed :: "event list" where
  "to_failed = [IframeLoad (Some 3) (Some 1), InitResolved, OpenRejected 0 (JStr ''not found'')]"

definition to_cleared :: "event list" where
  "to_cleared = to_failed @ [SetCredentials JNull]"

definition viewing_component :: "library \<Rightarrow> component" where
  "viewing_component lib = run lib to_viewing (sample_mount lib)"

definition failed_component :: "library \<Rightarrow> component" where
  "failed_component lib = run lib to_failed (sample_mount lib)"

definition cleared_component :: component where
  "cleared_component = run quiet_library to_cleared (sample_mount quiet_library)"

definition next_image :: event where
  "next_image = SetProps (JStr ''key'') (JStr ''img-2'') (JBool True) JUndefined"

section \<open>Properties of the error message\<close>

lemma str_indexOf_from_ge: "0 \<le> str_indexOf_from s n i \<longleftrightarrow> sublist n s"
  by (induction s arbitrary: i) (auto simp: sublist_Cons_right)

lemma str_indexOf_ge: "0 \<le> str_indexOf s n \<longleftrightarrow> sublist n s"
  by (simp add: str_indexOf_def str_indexOf_from_ge)

lemma arr_indexOf_from_ge: "0 \<le> arr_indexOf_from xs n i \<longleftrightarrow> JStr n \<in> set xs"
  by (induction xs arbitrary: i) auto

lemma arr_indexOf_ge: "0 \<le> arr_indexOf xs n \<longleftrightarrow> JStr n \<in> set xs"
  by (simp add: arr_indexOf_def arr_indexOf_from_ge)

text \<open>
  C1, as the code has it. The unauthorized text is searched in the payload
  itself, through the payload's own \<open>indexOf\<close>: a payload that is a string
  containing the text (or an array holding exactly that string) gives the
  localized invalid-credentials message. Every other payload, an object whose
  \<open>message\<close> field contains the text included, gives its \<open>message\<close> field,
  and \<open>"Unknown error"\<close> when that field is absent, \<open>undefined\<close> or \<open>null\<close>.
  An object with an own \<open>indexOf\<close> property that is data makes the call throw.
\<close>

theorem getErrorMessage_cases:
  "getErrorMessage err =
     (if (\<exists>s. err = JStr s \<and> sublist unauthorized_text s)
         \<or> (\<exists>xs. err = JArr xs \<and> JStr unauthorized_text \<in> set xs)
      then Inr (Message ''streetView.cyclomedia.invalidCredentials'')
      else if (\<exists>ps. err = JObj ps) \<and> \<not> nullish (getProp err ''indexOf'') then Inl TypeError
      else Inr (Raw (if nullish (getProp err ''message'') then JStr ''Unknown error''
                     else getProp err ''message'')))"
  by (cases err) (auto simp: getErrorMessage_def coalesce_def str_indexOf_ge arr_indexOf_ge)

theorem getErrorMessage_cases_witness:
  "getErrorMessage (JStr ''init::Loading user info failed with status code 401'')
     = Inr (Message ''streetView.cyclomedia.invalidCredentials'')
   \<and> getErrorMessage (JObj [(''message'', JStr ''Network Error'')])
       = Inr (Raw (JStr ''Network Error''))
   \<and> getErrorMessage (JObj []) = Inr (Raw (JStr ''Unknown error''))"
proof -
  have a: "sublist unauthorized_text ''init::Loading user info failed with status code 401''"
    by (simp add: unauthorized_text_def)
  show ?thesis
    using a getErrorMessage_cases [of "JStr ''init::Loading user info failed with status code 401''"]
      getErrorMessage_cases [of "JObj [(''message'', JStr ''Network Error'')]"]
      getErrorMessage_cases [of "JObj []"]
    by simp
qed

text \<open>
  C1 as stated fails: an error object whose \<open>message\<close> field is the
  unauthorized text has no \<open>indexOf\<close>, so the test is false and the raw
  message is shown instead of the localized one.
\<close>

theorem getErrorMessage_message_field_counterexample:
  "sublist unauthorized_text ''init::Loading user info failed with status code 401''
   \<and> getErrorMessage
        (JObj [(''message'', JStr ''init::Loading user info failed with status code 401'')])
       = Inr (Raw (JStr ''init::Loading user info failed with status code 401''))
   \<and> getErrorMessage
        (JObj [(''message'', JStr ''init::Loading user info failed with status code 401'')])
       \<noteq> Inr (Message ''streetView.cyclomedia.invalidCredentials'')"
  by (simp add: getErrorMessage_def coalesce_def unauthorized_text_def)

section \<open>Properties of the event handlers\<close>

lemma param_detail_ok: "ev \<noteq> JNull \<Longrightarrow> param_detail ev = Inr (getProp ev ''detail'')"
  by (cases ev) (simp_all add: param_detail_def destructure_def)

lemma param_detail_null: "param_detail JNull = Inl TypeError"
  by (simp add: param_detail_def destructure_def)

lemma getProp_coalesce_empty: "getProp (coalesce d (JObj [])) k = getProp d k"
  by (cases d) (simp_all add: coalesce_def)

lemma truthy_js_and: "truthy (js_and a b) \<longleftrightarrow> truthy a \<and> truthy b"
  by (simp add: js_and_def)

lemma getProp_setProp:
  "getProp (JObj (setProp k v ps)) k' = (if k' = k then v else getProp (JObj ps) k')"
  by (simp add: setProp_def update_conv')

lemma truthy_getProp_obj: "truthy (getProp r k) \<Longrightarrow> \<exists>ps. r = JObj ps"
  by (cases r) simp_all

lemma changeView_result:
  "ev \<noteq> JNull \<Longrightarrow>
   changeView v ev tr =
     Inr (tr @ [SetPov (JObj [(''heading'', getProp (getProp ev ''detail'') ''yaw''),
                              (''pitch'', getProp (getProp ev ''detail'') ''pitch'')])])"
  by (simp add: changeView_def param_detail_ok getProp_coalesce_empty)

text \<open>The subscribed closures hand the event, or \<open>undefined\<close>, to the handlers.\<close>

lemma handlers_pass_event:
  "viewChangeHandler v (ev # rest) tr = changeView v ev tr"
  "viewChangeHandler v [] tr = changeView v JUndefined tr"
  "recordingClickHandler v (ev # rest) tr = changeRecording v ev tr"
  "recordingClickHandler v [] tr = changeRecording v JUndefined tr"
  by (simp_all add: viewChangeHandler_def recordingClickHandler_def first_arg_def)

text \<open>A \<open>null\<close> in place of the event cannot be destructured: both handlers throw.\<close>

lemma handlers_null_event:
  "changeView v JNull tr = Inl TypeError" "changeRecording v JNull tr = Inl TypeError"
  by (simp_all add: changeView_def changeRecording_def param_detail_null)

text \<open>
  C9. A view-change event whose detail is \<open>{yaw: 45, pitch: -10}\<close> makes
  the handler call \<open>setPov\<close> exactly once, with \<open>{heading: 45, pitch: -10}\<close>:
  the calls made are those made before and this one.
\<close>

theorem changeView_yaw_pitch:
  assumes "getProp ev ''detail'' = JObj [(''yaw'', JNum 45), (''pitch'', JNum (- 10))]"
  shows "changeView v ev tr =
           Inr (tr @ [SetPov (JObj [(''heading'', JNum 45), (''pitch'', JNum (- 10))])])"
proof -
  have "ev \<noteq> JNull" using assms by auto
  then show ?thesis using assms by (simp add: changeView_result)
qed

theorem changeView_yaw_pitch_witness:
  "getProp view_event ''detail'' = JObj [(''yaw'', JNum 45), (''pitch'', JNum (- 10))]
   \<and> changeView 7 view_event []
       = Inr [SetPov (JObj [(''heading'', JNum 45), (''pitch'', JNum (- 10))])]"
  using changeView_yaw_pitch [of view_event 7 "[]"]
  by (simp add: view_event_def)

lemma getProp_nullish: "nullish d \<Longrightarrow> getProp d k = JUndefined"
  by (cases d) simp_all

text \<open>
  C10, as the code has it. The subscribed closure, given any arguments whose
  first one is not \<open>null\<close> (an event object, with or without a detail, any
  other value, or no argument at all), returns normally after exactly one
  \<open>setPov\<close> call, made with the detail's \<open>yaw\<close> as heading and its \<open>pitch\<close>;
  when the event has no detail, or the detail has neither \<open>yaw\<close> nor
  \<open>pitch\<close>, the host receives \<open>{heading: undefined, pitch: undefined}\<close>.
  Given \<open>null\<close> as the event it throws a TypeError and calls nothing: the
  default \<open>{detail} = {}\<close> replaces \<open>undefined\<close> only.
\<close>

theorem viewChangeHandler_one_setPov:
  "viewChangeHandler v args tr =
     (if first_arg args = JNull then Inl TypeError
      else Inr (tr @ [SetPov (JObj
             [(''heading'', getProp (getProp (first_arg args) ''detail'') ''yaw''),
              (''pitch'', getProp (getProp (first_arg args) ''detail'') ''pitch'')])]))
   \<and> (first_arg args \<noteq> JNull
        \<and> (nullish (getProp (first_arg args) ''detail'')
             \<or> (getProp (getProp (first_arg args) ''detail'') ''yaw'' = JUndefined
                 \<and> getProp (getProp (first_arg args) ''detail'') ''pitch'' = JUndefined))
      \<longrightarrow> viewChangeHandler v args tr =
            Inr (tr @ [SetPov (JObj [(''heading'', JUndefined), (''pitch'', JUndefined)])]))"
proof (intro conjI impI)
  show "viewChangeHandler v args tr =
     (if first_arg args = JNull then Inl TypeError
      else Inr (tr @ [SetPov (JObj
             [(''heading'', getProp (getProp (first_arg args) ''detail'') ''yaw''),
              (''pitch'', getProp (getProp (first_arg args) ''detail'') ''pitch'')])]))"
    by (simp add: viewChangeHandler_def changeView_result handlers_null_event)
next
  assume h: "first_arg args \<noteq> JNull
        \<and> (nullish (getProp (first_arg args) ''detail'')
             \<or> (getProp (getProp (first_arg args) ''detail'') ''yaw'' = JUndefined
                 \<and> getProp (getProp (first_arg args) ''detail'') ''pitch'' = JUndefined))"
  then have "getProp (getProp (first_arg args) ''detail'') ''yaw'' = JUndefined"
    "getProp (getProp (first_arg args) ''detail'') ''pitch'' = JUndefined"
    using getProp_nullish by blast+
  then show "viewChangeHandler v args tr =
            Inr (tr @ [SetPov (JObj [(''heading'', JUndefined), (''pitch'', JUndefined)])])"
    using h by (simp add: viewChangeHandler_def changeView_result)
qed

theorem viewChangeHandler_one_setPov_witness:
  "first_arg [JObj [(''type'', JStr ''VIEW_CHANGE'')]] \<noteq> JNull
   \<and> nullish (getProp (first_arg [JObj [(''type'', JStr ''VIEW_CHANGE'')]]) ''detail'')
   \<and> viewChangeHandler 7 [JObj [(''type'', JStr ''VIEW_CHANGE'')]] []
     = Inr [SetPov (JObj [(''heading'', JUndefined), (''pitch'', JUndefined)])]
   \<and> viewChangeHandler 7 [] []
     = Inr [SetPov (JObj [(''heading'', JUndefined), (''pitch'', JUndefined)])]
   \<and> viewChangeHandler 7 [JObj [(''detail'', JObj [(''zoom'', JNum 2)])]] []
     = Inr [SetPov (JObj [(''heading'', JUndefined), (''pitch'', JUndefined)])]
   \<and> viewChangeHandler 7 [view_event] []
     = Inr [SetPov (JObj [(''heading'', JNum 45), (''pitch'', JNum (- 10))])]"
  using viewChangeHandler_one_setPov [of 7 "[JObj [(''type'', JStr ''VIEW_CHANGE'')]]" "[]"]
    viewChangeHandler_one_setPov [of 7 "[]" "[]"]
    viewChangeHandler_one_setPov [of 7 "[JObj [(''detail'', JObj [(''zoom'', JNum 2)])]]" "[]"]
    viewChangeHandler_one_setPov [of 7 "[view_event]" "[]"]
  by (simp add: first_arg_def view_event_def)

text \<open>
  C10 as stated fails in its "never throws": the subscribed closure, given
  \<open>null\<close> as the event, throws a TypeError and makes no \<open>setPov\<close> call.
\<close>

theorem viewChangeHandler_null_event_counterexample:
  "first_arg [JNull] = JNull
   \<and> viewChangeHandler 7 [JNull] [] = Inl TypeError
   \<and> viewChangeHandler 7 [JNull] []
       \<noteq> Inr [SetPov (JObj [(''heading'', JUndefined), (''pitch'', JUndefined)])]"
  by (simp add: viewChangeHandler_def first_arg_def changeView_def param_detail_def
      destructure_def)

text \<open>
  C2, as the code has it. The handler tests the recording's \<open>xyz\<close> and \<open>id\<close>
  for truthiness, not the length of \<open>xyz\<close>: it calls \<open>setLocation\<close> exactly
  once when both are truthy and not at all otherwise (so not when either is
  missing). The location forwarded has \<open>lat = xyz[1]\<close>, \<open>lng = xyz[0]\<close> and
  as properties the recording's own properties with \<open>imageId\<close> set to its
  \<open>id\<close>: every other key reads as in the recording.
\<close>

theorem changeRecording_forwards:
  assumes "ev \<noteq> JNull"
    and "recording = getProp (getProp ev ''detail'') ''recording''"
    and "xyz = getProp recording ''xyz''" and "ident = getProp recording ''id''"
  shows "changeRecording v ev tr =
           Inr (if truthy xyz \<and> truthy ident
                then tr @ [SetLocation (JObj
                       [(''latLng'', JObj [(''lat'', getIndex xyz 1), (''lng'', getIndex xyz 0)]),
                        (''properties'', JObj (setProp ''imageId'' ident (ownProps recording)))])]
                else tr)
         \<and> (truthy xyz \<longrightarrow>
              (\<forall>k. getProp (JObj (setProp ''imageId'' ident (ownProps recording))) k =
                     (if k = ''imageId'' then ident else getProp recording k)))"
proof (intro conjI impI allI)
  show "changeRecording v ev tr =
           Inr (if truthy xyz \<and> truthy ident
                then tr @ [SetLocation (JObj
                       [(''latLng'', JObj [(''lat'', getIndex xyz 1), (''lng'', getIndex xyz 0)]),
                        (''properties'', JObj (setProp ''imageId'' ident (ownProps recording)))])]
                else tr)"
    using assms
    by (simp add: changeRecording_def param_detail_ok truthy_js_and getProp_coalesce_empty Let_def)
next
  fix k
  assume "truthy xyz"
  then obtain ps where "recording = JObj ps"
    using assms(3) truthy_getProp_obj by blast
  then show "getProp (JObj (setProp ''imageId'' ident (ownProps recording))) k =
           (if k = ''imageId'' then ident else getProp recording k)"
    by (simp only: ownProps.simps getProp_setProp)
qed

theorem changeRecording_forwards_witness:
  "changeRecording 7
     (recording_event (JObj [(''xyz'', JArr [JNum 10, JNum 20, JNum 5]), (''id'', JStr ''img-1'')])) []
   = Inr [SetLocation (JObj
       [(''latLng'', JObj [(''lat'', JNum 20), (''lng'', JNum 10)]),
        (''properties'', JObj [(''xyz'', JArr [JNum 10, JNum 20, JNum 5]),
                               (''id'', JStr ''img-1''), (''imageId'', JStr ''img-1'')])])]
   \<and> changeRecording 7 (recording_event (JObj [(''id'', JStr ''img-1'')])) [] = Inr []
   \<and> changeRecording 7
       (recording_event (JObj [(''xyz'', JArr [JNum 10, JNum 20, JNum 5])])) [] = Inr []"
  using changeRecording_forwards [OF _ refl refl refl, of
      "recording_event (JObj [(''xyz'', JArr [JNum 10, JNum 20, JNum 5]), (''id'', JStr ''img-1'')])"
      7 "[]"]
    changeRecording_forwards [OF _ refl refl refl, of
      "recording_event (JObj [(''id'', JStr ''img-1'')])" 7 "[]"]
    changeRecording_forwards [OF _ refl refl refl, of
      "recording_event (JObj [(''xyz'', JArr [JNum 10, JNum 20, JNum 5])])" 7 "[]"]
  by (simp add: setProp_def recording_event_def)

text \<open>
  C2 as stated fails in its "only if": a recording whose \<open>xyz\<close> has two
  elements, not three, and an \<open>id\<close> is forwarded all the same.
\<close>

theorem changeRecording_two_coordinates_counterexample:
  "getProp (JObj [(''xyz'', JArr [JNum 10, JNum 20]), (''id'', JStr ''img-1'')]) ''xyz''
     = JArr [JNum 10, JNum 20]
   \<and> length [JNum 10, JNum 20] \<noteq> 3
   \<and> changeRecording 7
       (recording_event (JObj [(''xyz'', JArr [JNum 10, JNum 20]), (''id'', JStr ''img-1'')])) []
     = Inr [SetLocation (JObj
         [(''latLng'', JObj [(''lat'', JNum 20), (''lng'', JNum 10)]),
          (''properties'', JObj [(''xyz'', JArr [JNum 10, JNum 20]),
                                 (''id'', JStr ''img-1''), (''imageId'', JStr ''img-1'')])])]"
  by (simp add: changeRecording_def param_detail_def destructure_def coalesce_def js_and_def
      setProp_def Let_def recording_event_def)

section \<open>Properties of the presentation\<close>

text \<open>
  C6. The iframe of the panorama viewer is displayed exactly when the
  library object is present, \<open>initialized\<close> holds, an image identifier is
  present, both credential fields are present and no error is set. Present
  and set mean truthy, which is how the code tests them.
\<close>

theorem showPanoramaViewer_iff:
  "iframe_display s = ''block'' \<longleftrightarrow>
     StreetSmartApi s \<noteq> None \<and> initialized s \<and> truthy (imageId s)
     \<and> truthy (username s) \<and> truthy (password s) \<and> \<not> truthy (error s)"
  by (auto simp: iframe_display_def showPanoramaViewer_def showCredentialsForm_def
      hasCredentials_def truthy_js_and)

theorem showPanoramaViewer_iff_witness:
  "iframe_display viewing_state = ''block''
   \<and> iframe_display (viewing_state\<lparr>error := JStr ''open failed''\<rparr>) \<noteq> ''block''
   \<and> iframe_display (viewing_state\<lparr>imageId := JUndefined\<rparr>) \<noteq> ''block''"
  using showPanoramaViewer_iff [of viewing_state]
    showPanoramaViewer_iff [of "viewing_state\<lparr>error := JStr ''open failed''\<rparr>"]
    showPanoramaViewer_iff [of "viewing_state\<lparr>imageId := JUndefined\<rparr>"]
  by (simp add: viewing_state_def)

text \<open>
  C7, as the code has it. With credentials present and no error:
  \<^item> "loading API" when the library object is absent and the state is neither
    initialized nor initializing;
  \<^item> "initializing" when initializing and not yet initialized;
  \<^item> "zoom in" when initialized, \<open>mapPointVisible\<close> is falsy and the panorama
    viewer is not shown;
  \<^item> when the library object is present, the state initialized and an image
    identifier present, the panorama viewer is shown and no empty view is.
  \<open>empty_view\<close> is a function, so at most one variant is chosen.
\<close>

theorem empty_view_variants:
  assumes "hasCredentials s" and "\<not> truthy (error s)"
  shows "(StreetSmartApi s = None \<and> \<not> initialized s \<and> \<not> initializing s \<longrightarrow>
            empty_view s = Some (EmptyStreetView True (Some ''streetView.cyclomedia.loadingAPI'')))
       \<and> (initializing s \<and> \<not> initialized s \<longrightarrow>
            empty_view s = Some (EmptyStreetView True (Some ''streetView.cyclomedia.initializing'')))
       \<and> (initialized s \<and> \<not> truthy (mapPointVisible s) \<and> \<not> showPanoramaViewer s \<longrightarrow>
            empty_view s = Some (EmptyStreetView False (Some ''streetView.cyclomedia.zoomIn'')))
       \<and> (StreetSmartApi s \<noteq> None \<and> initialized s \<and> truthy (imageId s) \<longrightarrow>
            showPanoramaViewer s \<and> iframe_display s = ''block'' \<and> empty_view s = None)"
  using assms
  by (auto simp: empty_view_def showEmptyView_def showPanoramaViewer_def showCredentialsForm_def
      EmptyView_def iframe_display_def)

theorem empty_view_variants_witness:
  "empty_view (viewing_state\<lparr>StreetSmartApi := None, initialized := False\<rparr>)
     = Some (EmptyStreetView True (Some ''streetView.cyclomedia.loadingAPI''))
   \<and> empty_view (viewing_state\<lparr>initializing := True, initialized := False\<rparr>)
     = Some (EmptyStreetView True (Some ''streetView.cyclomedia.initializing''))
   \<and> empty_view (viewing_state\<lparr>imageId := JUndefined, mapPointVisible := JBool False\<rparr>)
     = Some (EmptyStreetView False (Some ''streetView.cyclomedia.zoomIn''))
   \<and> empty_view viewing_state = None \<and> iframe_display viewing_state = ''block''"
proof -
  have h: "hasCredentials (viewing_state\<lparr>StreetSmartApi := None, initialized := False\<rparr>)"
    "hasCredentials (viewing_state\<lparr>initializing := True, initialized := False\<rparr>)"
    "hasCredentials (viewing_state\<lparr>imageId := JUndefined, mapPointVisible := JBool False\<rparr>)"
    "hasCredentials viewing_state"
    by (simp_all add: hasCredentials_def js_and_def viewing_state_def)
  have e: "\<not> truthy (error (viewing_state\<lparr>StreetSmartApi := None, initialized := False\<rparr>))"
    "\<not> truthy (error (viewing_state\<lparr>initializing := True, initialized := False\<rparr>))"
    "\<not> truthy (error (viewing_state\<lparr>imageId := JUndefined, mapPointVisible := JBool False\<rparr>))"
    "\<not> truthy (error viewing_state)"
    by (simp_all add: viewing_state_def)
  show ?thesis
    using empty_view_variants [OF h(1) e(1)] empty_view_variants [OF h(2) e(2)]
      empty_view_variants [OF h(3) e(3)] empty_view_variants [OF h(4) e(4)]
    by (simp add: viewing_state_def showPanoramaViewer_def)
qed

text \<open>
  C7 as stated fails on its "zoom in" clause: with credentials, no error,
  \<open>initialized\<close> and \<open>mapPointVisible = false\<close>, but the library object and
  an image identifier present, the panorama is shown and no empty view is.
\<close>

theorem empty_view_zoom_in_counterexample:
  "hasCredentials (viewing_state\<lparr>mapPointVisible := JBool False\<rparr>)
   \<and> \<not> truthy (error (viewing_state\<lparr>mapPointVisible := JBool False\<rparr>))
   \<and> initialized (viewing_state\<lparr>mapPointVisible := JBool False\<rparr>)
   \<and> \<not> truthy (mapPointVisible (viewing_state\<lparr>mapPointVisible := JBool False\<rparr>))
   \<and> empty_view (viewing_state\<lparr>mapPointVisible := JBool False\<rparr>) = None
   \<and> iframe_display (viewing_state\<lparr>mapPointVisible := JBool False\<rparr>) = ''block''"
  by (simp add: hasCredentials_def js_and_def empty_view_def showEmptyView_def
      showPanoramaViewer_def showCredentialsForm_def viewing_state_def iframe_display_def)

section \<open>Properties of the lifecycle\<close>

subsection \<open>The calls of cleanups, effects and a commit\<close>

lemma run_init_cleanup_eq:
  "run_init_cleanup lib cl tr = (None, tr @ destroy_calls lib cl)"
  by (cases cl) (auto simp: try_console_error_def call_destroy_def split: option.splits)

lemma run_init_cleanup_destroy:
  "has_destroy lib a \<Longrightarrow>
     run_init_cleanup lib (InitDestroy a t) tr =
       (None, tr @ ApiDestroy a t #
                (case destroy_throws lib a t of None \<Rightarrow> [] | Some x \<Rightarrow> [ConsoleError [] x]))"
  "\<not> has_destroy lib a \<Longrightarrow> run_init_cleanup lib (InitDestroy a t) tr = (None, tr)"
  by (simp_all add: run_init_cleanup_eq)

lemma run_open_cleanup_eq:
  "run_open_cleanup (open_cleanup_fn c) (sessions c) tr = tr @ offs_of c"
  by (cases "open_cleanup_fn c") (simp_all add: offs_of_def)

lemma trace_cleanup_init: "trace (cleanup_init lib c) = trace c @ destroy_calls lib (init_cleanup_fn c)"
  by (simp add: cleanup_init_def run_init_cleanup_eq)

lemma trace_cleanup_open: "trace (cleanup_open c) = trace c @ offs_of c"
  by (cases "open_cleanup_fn c") (simp_all add: cleanup_open_def offs_of_def)

lemma trace_init_effect: "trace (init_effect c) = trace c @ init_calls c"
  by (auto simp: init_effect_def init_calls_def init_guard_def split: option.splits)

lemma trace_open_effect: "trace (open_effect c) = trace c @ open_calls c"
  by (auto simp: open_effect_def open_calls_def open_guard_def split: option.splits)

lemma ui_cleanup_init [simp]:
  "StreetSmartApi (cleanup_init lib c) = StreetSmartApi c"
  "username (cleanup_init lib c) = username c"
  "password (cleanup_init lib c) = password c"
  "apiKey (cleanup_init lib c) = apiKey c"
  "imageId (cleanup_init lib c) = imageId c"
  "initialized (cleanup_init lib c) = initialized c"
  "targetElement (cleanup_init lib c) = targetElement c"
  "initOptions (cleanup_init lib c) = initOptions c"
  "sessions (cleanup_init lib c) = sessions c"
  "open_cleanup_fn (cleanup_init lib c) = open_cleanup_fn c"
  "init_cleanup_fn (cleanup_init lib c) = InitNoop"
  "mounted (cleanup_init lib c) = mounted c"
  "init_deps (cleanup_init lib c) = init_deps c"
  "open_deps (cleanup_init lib c) = open_deps c"
  "reload (cleanup_init lib c) = reload c"
  "error (cleanup_init lib c) = error c"
  "initializing (cleanup_init lib c) = initializing c"
  "init_pending (cleanup_init lib c) = init_pending c"
  by (simp_all add: cleanup_init_def)

lemma ui_cleanup_open [simp]:
  "StreetSmartApi (cleanup_open c) = StreetSmartApi c"
  "username (cleanup_open c) = username c"
  "password (cleanup_open c) = password c"
  "apiKey (cleanup_open c) = apiKey c"
  "imageId (cleanup_open c) = imageId c"
  "initialized (cleanup_open c) = initialized c"
  "targetElement (cleanup_open c) = targetElement c"
  "initOptions (cleanup_open c) = initOptions c"
  "sessions (cleanup_open c) = sessions c"
  "open_cleanup_fn (cleanup_open c) = OpenNoop"
  "init_cleanup_fn (cleanup_open c) = init_cleanup_fn c"
  "mounted (cleanup_open c) = mounted c"
  "init_deps (cleanup_open c) = init_deps c"
  "open_deps (cleanup_open c) = open_deps c"
  "reload (cleanup_open c) = reload c"
  "error (cleanup_open c) = error c"
  "initializing (cleanup_open c) = initializing c"
  "init_pending (cleanup_open c) = init_pending c"
  by (simp_all add: cleanup_open_def)

lemma ui_init_effect [simp]:
  "StreetSmartApi (init_effect c) = StreetSmartApi c"
  "username (init_effect c) = username c"
  "password (init_effect c) = password c"
  "apiKey (init_effect c) = apiKey c"
  "imageId (init_effect c) = imageId c"
  "initialized (init_effect c) = initialized c"
  "targetElement (init_effect c) = targetElement c"
  "initOptions (init_effect c) = initOptions c"
  "sessions (init_effect c) = sessions c"
  "open_cleanup_fn (init_effect c) = open_cleanup_fn c"
  "mounted (init_effect c) = mounted c"
  "init_deps (init_effect c) = init_deps c"
  "open_deps (init_effect c) = open_deps c"
  "reload (init_effect c) = reload c"
  "error (init_effect c) = error c"
  by (simp_all add: init_effect_def split: option.splits)

lemma ui_open_effect [simp]:
  "StreetSmartApi (open_effect c) = StreetSmartApi c"
  "username (open_effect c) = username c"
  "password (open_effect c) = password c"
  "apiKey (open_effect c) = apiKey c"
  "imageId (open_effect c) = imageId c"
  "initialized (open_effect c) = initialized c"
  "initializing (open_effect c) = initializing c"
  "targetElement (open_effect c) = targetElement c"
  "initOptions (open_effect c) = initOptions c"
  "init_cleanup_fn (open_effect c) = init_cleanup_fn c"
  "mounted (open_effect c) = mounted c"
  "init_deps (open_effect c) = init_deps c"
  "open_deps (open_effect c) = open_deps c"
  "reload (open_effect c) = reload c"
  "error (open_effect c) = error c"
  "init_pending (open_effect c) = init_pending c"
  by (simp_all add: open_effect_def split: option.splits)

lemma calls_unchanged [simp]:
  "init_calls (cleanup_init lib c) = init_calls c"
  "init_calls (cleanup_open c) = init_calls c"
  "offs_of (cleanup_init lib c) = offs_of c"
  "open_calls (cleanup_init lib c) = open_calls c"
  "open_calls (cleanup_open c) = open_calls c"
  "open_calls (init_effect c) = open_calls c"
  "open_calls (c\<lparr>init_deps := d\<rparr>) = open_calls c"
  by (auto simp: init_calls_def offs_of_def open_calls_def init_guard_def open_guard_def
      split: option.splits open_cleanup.splits)

lemma offs_of_cong:
  "open_cleanup_fn c' = open_cleanup_fn c \<Longrightarrow> sessions c' = sessions c \<Longrightarrow> offs_of c' = offs_of c"
  by (simp add: offs_of_def split: open_cleanup.splits)

lemma trace_commit:
  "trace (commit lib c) =
     trace c @ (if init_changed c then destroy_calls lib (init_cleanup_fn c) else [])
             @ (if open_changed c then offs_of c else [])
             @ (if init_changed c then init_calls c else [])
             @ (if open_changed c then open_calls c else [])"
proof (cases "init_changed c"; cases "open_changed c")
  assume "init_changed c" "open_changed c"
  then show ?thesis
    by (simp add: commit_def Let_def init_changed_def open_changed_def trace_cleanup_init
      trace_cleanup_open trace_init_effect trace_open_effect)
next
  assume "init_changed c" "\<not> open_changed c"
  then show ?thesis
    by (simp add: commit_def Let_def init_changed_def open_changed_def trace_cleanup_init
      trace_init_effect)
next
  assume "\<not> init_changed c" "open_changed c"
  then show ?thesis
    by (simp add: commit_def Let_def init_changed_def open_changed_def
      trace_cleanup_open trace_open_effect)
next
  assume "\<not> init_changed c" "\<not> open_changed c"
  then show ?thesis
    by (simp add: commit_def Let_def init_changed_def open_changed_def)
qed

lemma trace_unmount:
  "trace (unmount lib c) = trace c @ destroy_calls lib (init_cleanup_fn c) @ offs_of c"
  by (simp add: unmount_def trace_cleanup_open trace_cleanup_init)

lemma ui_commit [simp]:
  "StreetSmartApi (commit lib c) = StreetSmartApi c"
  "username (commit lib c) = username c"
  "password (commit lib c) = password c"
  "apiKey (commit lib c) = apiKey c"
  "imageId (commit lib c) = imageId c"
  "initialized (commit lib c) = initialized c"
  "targetElement (commit lib c) = targetElement c"
  "initOptions (commit lib c) = initOptions c"
  "mounted (commit lib c) = mounted c"
  "reload (commit lib c) = reload c"
  "error (commit lib c) = error c"
  by (simp_all add: commit_def Let_def)

lemma deps_commit:
  "init_deps (commit lib c) = Some (current_init_deps c)"
  "open_deps (commit lib c) = Some (current_open_deps c)"
  by (auto simp: commit_def Let_def init_effect_def open_effect_def split: option.splits)

lemma init_cleanup_fn_commit:
  "init_cleanup_fn (commit lib c) =
     (if init_changed c then init_cleanup_fn (init_effect c) else init_cleanup_fn c)"
  by (auto simp: commit_def Let_def init_changed_def init_effect_def cleanup_init_def
      cleanup_open_def open_effect_def split: option.splits)

lemma initializing_commit:
  "initializing (commit lib x) = (if init_changed x \<and> init_guard x then True else initializing x)"
  by (auto simp: commit_def Let_def init_changed_def init_effect_def init_guard_def
      split: option.splits)

lemma notify_fields [simp]:
  "init_deps (notify e c) = init_deps c"
  "open_deps (notify e c) = open_deps c"
  "init_cleanup_fn (notify e c) = init_cleanup_fn c"
  "open_cleanup_fn (notify e c) = open_cleanup_fn c"
  "mounted (notify e c) = mounted c"
  "StreetSmartApi (notify e c) = StreetSmartApi c"
  "username (notify e c) = username c"
  "password (notify e c) = password c"
  "apiKey (notify e c) = apiKey c"
  "reload (notify e c) = reload c"
  "imageId (notify e c) = imageId c"
  "initialized (notify e c) = initialized c"
  "error (notify e c) = error c"
  "targetElement (notify e c) = targetElement c"
  "initOptions (notify e c) = initOptions c"
  by (cases e; simp split: option.splits list.splits)+

lemma set_state_fields [simp]:
  "init_deps (set_state e c) = init_deps c"
  "open_deps (set_state e c) = open_deps c"
  "init_cleanup_fn (set_state e c) = init_cleanup_fn c"
  "open_cleanup_fn (set_state e c) = open_cleanup_fn c"
  "mounted (set_state e c) = mounted c"
  "sessions (set_state e c) = sessions c"
  "trace (set_state e c) = trace c"
  by (cases e; simp)+

lemma deps_set_state_notify:
  "current_init_deps (set_state e (notify e c)) = current_init_deps (set_state e c)"
  "current_open_deps (set_state e (notify e c)) = current_open_deps (set_state e c)"
  "init_guard (set_state e (notify e c)) = init_guard (set_state e c)"
  by (cases e, simp_all add: current_init_deps_def current_open_deps_def init_guard_def
      split: option.splits list.splits)+

lemma ui_set_state_notify:
  "initializing (set_state e (notify e c)) = initializing (set_state e c)"
  "initialized (set_state e (notify e c)) = initialized (set_state e c)"
  "error (set_state e (notify e c)) = error (set_state e c)"
  "reload (set_state e (notify e c)) = reload (set_state e c)"
  by (cases e, simp_all split: option.splits list.splits)+

lemma step_mounted:
  "mounted c \<Longrightarrow> enabled e c \<Longrightarrow> e \<noteq> Unmount \<Longrightarrow>
     step lib e c = commit lib (set_state e (notify e c))"
  by (simp add: step_def)

lemma init_calls_guard: "\<not> init_guard x \<Longrightarrow> init_calls x = []"
  by (simp add: init_calls_def split: option.splits)

lemma init_effect_cases:
  "init_guard x \<Longrightarrow>
     \<exists>a. StreetSmartApi x = Some a \<and>
       init_effect x = x\<lparr>initializing := True,
          trace := trace x @ [ApiInit a (targetElement x) (username x) (password x)
                                (apiKey x) (initOptions x)],
          init_pending := Suc (init_pending x),
          init_cleanup_fn := InitDestroy a (targetElement x)\<rparr>"
  "\<not> init_guard x \<Longrightarrow> init_effect x = x\<lparr>init_cleanup_fn := InitNoop\<rparr>"
  by (auto simp: init_guard_def init_effect_def split: option.splits)

subsection \<open>Subscriptions stay paired\<close>

lemma subs_inv_iff:
  "subs_inv c \<longleftrightarrow>
     (\<exists>act. subscriptions (trace c) [] = Some act
        \<and> (\<forall>n. open_cleanup_fn c = OpenOff n \<longrightarrow>
               n < length (sessions c) \<and> cell_ok n (sessions c ! n) act))"
  by (auto simp: subs_inv_def split: option.splits open_cleanup.splits)

lemma subscriptions_append:
  "subscriptions (xs @ ys) act =
     (case subscriptions xs act of None \<Rightarrow> None | Some act' \<Rightarrow> subscriptions ys act')"
  by (induction xs act rule: subscriptions.induct) (auto split: option.splits)

lemma subscriptions_neutral:
  "list_all (\<lambda>x. \<not> is_on x \<and> \<not> is_off x) xs \<Longrightarrow> subscriptions xs act = Some act"
  by (induction xs act rule: subscriptions.induct) auto

lemma subscriptions_mem:
  "subscriptions tr act0 = Some act \<Longrightarrow> x \<in> set act \<Longrightarrow>
     x \<in> set act0 \<or> (case x of (v, e, h) \<Rightarrow> ViewerOn v e h \<in> set tr)"
  by (induction tr act0 rule: subscriptions.induct) (auto split: option.splits if_splits)

lemma neutral_destroy_calls: "list_all (\<lambda>x. \<not> is_on x \<and> \<not> is_off x) (destroy_calls lib cl)"
  by (cases cl) (auto split: option.splits)

lemma neutral_init_calls: "list_all (\<lambda>x. \<not> is_on x \<and> \<not> is_off x) (init_calls c)"
  by (auto simp: init_calls_def split: option.splits)

lemma neutral_open_calls: "list_all (\<lambda>x. \<not> is_on x \<and> \<not> is_off x) (open_calls c)"
  by (auto simp: open_calls_def split: option.splits)

lemma subs_inv_neutral:
  assumes "subs_inv c" and "list_all (\<lambda>x. \<not> is_on x \<and> \<not> is_off x) xs"
    and "trace c' = trace c @ xs" and "open_cleanup_fn c' = open_cleanup_fn c"
    and "sessions c' = sessions c"
  shows "subs_inv c'"
  using assms by (auto simp: subs_inv_iff subscriptions_append subscriptions_neutral split: option.splits)

lemma subs_inv_cleanup_init: "subs_inv c \<Longrightarrow> subs_inv (cleanup_init lib c)"
  by (rule subs_inv_neutral [where xs = "destroy_calls lib (init_cleanup_fn c)"])
     (simp_all add: neutral_destroy_calls trace_cleanup_init)

lemma subs_inv_init_effect: "subs_inv c \<Longrightarrow> subs_inv (init_effect c)"
  by (rule subs_inv_neutral [where xs = "init_calls c"])
     (simp_all add: neutral_init_calls trace_init_effect)

lemma subscriptions_session_offs:
  assumes "cell_ok n sv act"
  shows "subscriptions (session_offs sv) act \<noteq> None"
  using assms
  by (auto simp: cell_ok_def session_offs_def split: option.splits)

lemma subs_inv_cleanup_open: "subs_inv c \<Longrightarrow> subs_inv (cleanup_open c)"
  using subscriptions_session_offs
  by (cases "open_cleanup_fn c")
     (auto simp: subs_inv_iff cleanup_open_def subscriptions_append split: option.splits)

lemma subs_inv_open_effect: "subs_inv c \<Longrightarrow> subs_inv (open_effect c)"
  by (auto simp: subs_inv_iff open_effect_def subscriptions_append cell_ok_def new_session_def
      split: option.splits open_cleanup.splits)

lemma subs_inv_upd [simp]:
  "subs_inv (c\<lparr>init_deps := d1\<rparr>) = subs_inv c"
  "subs_inv (c\<lparr>open_deps := d2\<rparr>) = subs_inv c"
  "subs_inv (c\<lparr>mounted := b\<rparr>) = subs_inv c"
  by (simp_all add: subs_inv_iff)

lemma subs_inv_commit: "subs_inv c \<Longrightarrow> subs_inv (commit lib c)"
  by (simp add: commit_def Let_def subs_inv_cleanup_init subs_inv_cleanup_open
      subs_inv_init_effect subs_inv_open_effect)

lemma subs_inv_unmount: "subs_inv c \<Longrightarrow> subs_inv (unmount lib c)"
  by (simp add: unmount_def subs_inv_cleanup_init subs_inv_cleanup_open)

lemma subs_inv_set_state: "subs_inv (set_state e c) = subs_inv c"
  by (cases e) (simp_all add: subs_inv_iff)

lemma subs_inv_notify: "subs_inv c \<Longrightarrow> enabled e c \<Longrightarrow> subs_inv (notify e c)"
proof (cases e)
  case (OpenResolved n res)
  assume "subs_inv c" "enabled e c"
  then show ?thesis
    using OpenResolved
    by (auto simp: subs_inv_iff subscriptions_append cell_ok_def nth_list_update
        split: option.splits open_cleanup.splits list.splits)
next
  case (OpenRejected n err)
  assume "subs_inv c" "enabled e c"
  then show ?thesis
    using OpenRejected
    by (auto simp: subs_inv_iff subscriptions_append cell_ok_def nth_list_update
        split: option.splits open_cleanup.splits)
qed (auto simp: subs_inv_iff subscriptions_append split: option.splits open_cleanup.splits)

lemma subs_inv_step: "subs_inv c \<Longrightarrow> subs_inv (step lib e c)"
  by (simp add: step_def subs_inv_commit subs_inv_unmount subs_inv_set_state subs_inv_notify)

lemma subs_inv_run: "subs_inv c \<Longrightarrow> subs_inv (run lib es c)"
  by (induction es arbitrary: c) (simp_all add: subs_inv_step)

lemma subs_inv_mount: "subs_inv (mount lib k i m opts cr)"
  unfolding mount_def
  by (rule subs_inv_commit) (simp add: subs_inv_iff)

lemma current_cell:
  assumes "subs_inv c" and "open_cleanup_fn c = OpenOff n"
  shows "n < length (sessions c)"
    and "panoramaViewer (sessions c ! n) = None \<Longrightarrow> offs_of c = []"
    and "panoramaViewer (sessions c ! n) = Some v \<Longrightarrow>
           offs_of c = [ViewerOff v VIEW_CHANGE (Some (ViewChangeHandler n)),
                        ViewerOff v RECORDING_CLICK (Some (RecordingClickHandler n))]
           \<and> ViewerOn v VIEW_CHANGE (ViewChangeHandler n) \<in> set (trace c)
           \<and> ViewerOn v RECORDING_CLICK (RecordingClickHandler n) \<in> set (trace c)"
proof -
  obtain act where a: "subscriptions (trace c) [] = Some act"
    and b: "n < length (sessions c)" "cell_ok n (sessions c ! n) act"
    using assms by (auto simp: subs_inv_iff)
  show "n < length (sessions c)" by (rule b)
  show "offs_of c = []" if "panoramaViewer (sessions c ! n) = None"
    using that assms(2) b by (simp add: offs_of_def session_offs_def)
  show "offs_of c = [ViewerOff v VIEW_CHANGE (Some (ViewChangeHandler n)),
                        ViewerOff v RECORDING_CLICK (Some (RecordingClickHandler n))]
           \<and> ViewerOn v VIEW_CHANGE (ViewChangeHandler n) \<in> set (trace c)
           \<and> ViewerOn v RECORDING_CLICK (RecordingClickHandler n) \<in> set (trace c)"
    if "panoramaViewer (sessions c ! n) = Some v"
    using that assms(2) b subscriptions_mem [OF a, of "(v, VIEW_CHANGE, ViewChangeHandler n)"]
      subscriptions_mem [OF a, of "(v, RECORDING_CLICK, RecordingClickHandler n)"]
    by (simp add: offs_of_def session_offs_def cell_ok_def)
qed

subsection \<open>Init calls and the pending destroy\<close>

lemma init_inv_iff:
  "init_inv c \<longleftrightarrow>
     list_all init_call_ok (trace c)
     \<and> (\<forall>a t. init_cleanup_fn c = InitDestroy a t \<longrightarrow> last_init (trace c) = Some (a, t))"
  by (auto simp: init_inv_def split: init_cleanup.splits)

lemma cleanup_matches_iff:
  "cleanup_matches c \<longleftrightarrow>
     (init_cleanup_fn c = InitNoop \<longrightarrow> \<not> init_guard c)
     \<and> (\<forall>a t. init_cleanup_fn c = InitDestroy a t \<longrightarrow> init_guard c \<and> StreetSmartApi c = Some a)"
  by (auto simp: cleanup_matches_def split: init_cleanup.splits)

lemma last_init_no_init: "\<not> list_ex is_init xs \<Longrightarrow> last_init (tr @ xs) = last_init tr"
  by (simp add: last_init_def list_ex_iff filter_empty_conv[THEN iffD2])

lemma no_init_destroy_calls: "\<not> list_ex is_init (destroy_calls lib cl)"
  by (cases cl) (auto split: option.splits)

lemma ok_destroy_calls: "list_all init_call_ok (destroy_calls lib cl)"
  by (cases cl) (auto split: option.splits)

lemma no_init_offs: "\<not> list_ex is_init (offs_of c)"
  by (auto simp: offs_of_def session_offs_def split: open_cleanup.splits option.splits)

lemma ok_offs: "list_all init_call_ok (offs_of c)"
  by (auto simp: offs_of_def session_offs_def split: open_cleanup.splits option.splits)

lemma no_init_open_calls: "\<not> list_ex is_init (open_calls c)"
  by (auto simp: open_calls_def split: option.splits)

lemma ok_open_calls: "list_all init_call_ok (open_calls c)"
  by (auto simp: open_calls_def split: option.splits)

lemma init_inv_cleanup_init: "init_inv c \<Longrightarrow> init_inv (cleanup_init lib c)"
  by (simp add: init_inv_iff trace_cleanup_init ok_destroy_calls)

lemma init_inv_cleanup_open: "init_inv c \<Longrightarrow> init_inv (cleanup_open c)"
  by (simp add: init_inv_iff trace_cleanup_open ok_offs last_init_no_init no_init_offs)

lemma init_inv_open_effect: "init_inv c \<Longrightarrow> init_inv (open_effect c)"
  by (simp add: init_inv_iff trace_open_effect ok_open_calls last_init_no_init no_init_open_calls)

lemma init_inv_init_effect: "init_inv c \<Longrightarrow> init_inv (init_effect c)"
  by (auto simp: init_inv_iff init_effect_def last_init_def split: option.splits)

lemma init_inv_upd [simp]:
  "init_inv (c\<lparr>init_deps := d1\<rparr>) = init_inv c"
  "init_inv (c\<lparr>open_deps := d2\<rparr>) = init_inv c"
  "init_inv (c\<lparr>mounted := b\<rparr>) = init_inv c"
  by (simp_all add: init_inv_iff)

lemma init_inv_commit: "init_inv c \<Longrightarrow> init_inv (commit lib c)"
  by (simp add: commit_def Let_def init_inv_cleanup_init init_inv_cleanup_open
      init_inv_init_effect init_inv_open_effect)

lemma init_inv_unmount: "init_inv c \<Longrightarrow> init_inv (unmount lib c)"
  by (simp add: unmount_def init_inv_cleanup_init init_inv_cleanup_open)

lemma init_inv_set_state: "init_inv (set_state e c) = init_inv c"
  by (cases e) (simp_all add: init_inv_iff)

lemma init_inv_notify: "init_inv c \<Longrightarrow> init_inv (notify e c)"
  by (cases e) (auto simp: init_inv_iff last_init_def split: option.splits list.splits)

lemma init_inv_step: "init_inv c \<Longrightarrow> init_inv (step lib e c)"
  by (simp add: step_def init_inv_commit init_inv_unmount init_inv_set_state init_inv_notify)

lemma init_inv_run: "init_inv c \<Longrightarrow> init_inv (run lib es c)"
  by (induction es arbitrary: c) (simp_all add: init_inv_step)

lemma init_inv_mount: "init_inv (mount lib k i m opts cr)"
  unfolding mount_def
  by (rule init_inv_commit) (simp add: init_inv_iff)

lemma notify_trace_no_init: "filter is_init (trace (notify e c)) = filter is_init (trace c)"
  by (cases e) (simp_all split: option.splits list.splits)

lemma filter_no_init: "\<not> list_ex is_init xs \<Longrightarrow> filter is_init xs = []"
  by (simp add: list_ex_iff filter_empty_conv)

subsection \<open>Effects are up to date between steps\<close>

lemma cleanup_matches_init_effect: "cleanup_matches (init_effect c)"
  by (auto simp: cleanup_matches_iff init_effect_def init_guard_def split: option.splits if_splits)

lemma stable_commit:
  assumes "\<not> init_changed x \<longrightarrow> cleanup_matches x"
  shows "stable (commit lib x)"
proof -
  have g: "init_guard (commit lib x) = init_guard x" "init_guard (init_effect x) = init_guard x"
    by (simp_all add: init_guard_def)
  have "cleanup_matches (commit lib x)"
    using assms cleanup_matches_init_effect [of x]
    by (simp add: cleanup_matches_iff init_cleanup_fn_commit g)
  then show ?thesis
    by (simp add: stable_def deps_commit current_init_deps_def current_open_deps_def)
qed

lemma stable_mount: "stable (mount lib k i m opts cr)"
  unfolding mount_def by (rule stable_commit) (simp add: init_changed_def)

lemma stable_step:
  assumes "stable c"
  shows "stable (step lib e c)"
proof (cases "enabled e c \<and> e \<noteq> Unmount \<and> mounted c")
  case True
  let ?x = "set_state e (notify e c)"
  have "\<not> init_changed ?x \<longrightarrow> cleanup_matches ?x"
    using assms True
    by (auto simp: stable_def init_changed_def cleanup_matches_iff current_init_deps_def
        init_guard_def)
  then show ?thesis
    using True by (simp add: step_def stable_commit)
next
  case False
  then show ?thesis
    using assms by (auto simp: step_def stable_def unmount_def)
qed

lemma stable_run: "stable c \<Longrightarrow> stable (run lib es c)"
  by (induction es arbitrary: c) (simp_all add: stable_step)

lemma changed_after_stable:
  assumes "stable c" and "mounted c"
  shows "init_changed (set_state e (notify e c)) \<longleftrightarrow>
           current_init_deps (set_state e (notify e c)) \<noteq> current_init_deps c"
    and "open_changed (set_state e (notify e c)) \<longleftrightarrow>
           current_open_deps (set_state e (notify e c)) \<noteq> current_open_deps c"
  using assms by (auto simp: stable_def init_changed_def open_changed_def)

lemma trace_step:
  assumes "mounted c" "enabled e c" "e \<noteq> Unmount" "stable c"
  shows "trace (step lib e c) =
     trace (notify e c)
       @ (if current_init_deps (set_state e c) \<noteq> current_init_deps c
          then destroy_calls lib (init_cleanup_fn c) else [])
       @ (if current_open_deps (set_state e c) \<noteq> current_open_deps c
          then offs_of (notify e c) else [])
       @ (if current_init_deps (set_state e c) \<noteq> current_init_deps c
          then init_calls (set_state e c) else [])
       @ (if current_open_deps (set_state e c) \<noteq> current_open_deps c
          then open_calls (set_state e (notify e c)) else [])"
proof -
  let ?x = "set_state e (notify e c)"
  have o: "offs_of ?x = offs_of (notify e c)"
    by (rule offs_of_cong) simp_all
  have i: "init_calls ?x = init_calls (set_state e c)"
    by (cases e) (simp_all add: init_calls_def init_guard_def split: option.splits list.splits)
  show ?thesis
    using assms
    by (simp add: step_mounted trace_commit changed_after_stable deps_set_state_notify o i)
qed

lemma offs_of_notify:
  assumes "current_open_deps (set_state e c) \<noteq> current_open_deps c"
  shows "offs_of (notify e c) = offs_of c"
proof -
  have "open_cleanup_fn (notify e c) = open_cleanup_fn c" by simp
  moreover have "sessions (notify e c) = sessions c"
    using assms by (cases e) (simp_all add: current_open_deps_def)
  ultimately show ?thesis by (rule offs_of_cong)
qed

lemma notify_trace_ext:
  "\<exists>xs. trace (notify e c) = trace c @ xs \<and> \<not> list_ex is_open xs \<and> \<not> list_ex is_off xs
        \<and> \<not> list_ex is_destroy xs"
  by (cases e) (auto split: option.splits list.splits)

lemma no_off_destroy_calls:
  "\<not> list_ex is_off (destroy_calls lib cl)" "\<not> list_ex is_open (destroy_calls lib cl)"
  by (cases cl; auto split: option.splits)+

lemma no_off_init_calls: "\<not> list_ex is_off (init_calls s)"
  by (auto simp: init_calls_def split: option.splits)

lemma no_off_open_calls: "\<not> list_ex is_off (open_calls s)"
  by (auto simp: open_calls_def split: option.splits)

lemma filter_none:
  "\<not> list_ex is_off ys \<Longrightarrow> filter is_off ys = []"
  "\<not> list_ex is_open ys \<Longrightarrow> filter is_open ys = []"
  by (simp_all add: list_ex_iff filter_empty_conv)

lemma no_open_init_calls: "\<not> list_ex is_open (init_calls s)"
  by (auto simp: init_calls_def split: option.splits)

lemma step_open_changed:
  assumes "stable c" and "mounted c" and "enabled e c" and "e \<noteq> Unmount"
    and d: "current_open_deps (set_state e c) \<noteq> current_open_deps c"
  shows "\<exists>pre post. trace (step lib e c) = trace c @ pre @ offs_of c @ post
               \<and> \<not> list_ex is_open pre \<and> \<not> list_ex is_off pre \<and> \<not> list_ex is_off post"
proof -
  obtain xs where xs: "trace (notify e c) = trace c @ xs" and xs': "\<not> list_ex is_open xs"
      "\<not> list_ex is_off xs"
    using notify_trace_ext by blast
  define ds where "ds = (if current_init_deps (set_state e c) \<noteq> current_init_deps c
          then destroy_calls lib (init_cleanup_fn c) else [])"
  define ps where "ps = (if current_init_deps (set_state e c) \<noteq> current_init_deps c
          then init_calls (set_state e c) else []) @ open_calls (set_state e (notify e c))"
  have "trace (step lib e c) = trace (notify e c) @ ds @ offs_of (notify e c) @ ps"
    unfolding ds_def ps_def using d by (simp add: trace_step [OF assms(2,3,4,1)])
  then have "trace (step lib e c) = trace c @ (xs @ ds) @ offs_of c @ ps"
    by (simp add: xs offs_of_notify [OF d])
  moreover have "\<not> list_ex is_open (xs @ ds)" "\<not> list_ex is_off (xs @ ds)"
    using xs' by (simp_all add: ds_def no_off_destroy_calls)
  moreover have "\<not> list_ex is_off ps"
    by (simp add: ps_def no_off_init_calls no_off_open_calls)
  ultimately show ?thesis by blast
qed

lemma step_open_unchanged:
  assumes "stable c" and "mounted c" and "enabled e c" and "e \<noteq> Unmount"
    and d: "current_open_deps (set_state e c) = current_open_deps c"
  shows "filter is_off (trace (step lib e c)) = filter is_off (trace c)"
    and "filter is_open (trace (step lib e c)) = filter is_open (trace c)"
proof -
  obtain xs where xs: "trace (notify e c) = trace c @ xs" and xs': "\<not> list_ex is_open xs"
      "\<not> list_ex is_off xs"
    using notify_trace_ext by blast
  define ds where "ds = (if current_init_deps (set_state e c) \<noteq> current_init_deps c
          then destroy_calls lib (init_cleanup_fn c) else [])"
  define ps where "ps = (if current_init_deps (set_state e c) \<noteq> current_init_deps c
          then init_calls (set_state e c) else [])"
  have t: "trace (step lib e c) = trace c @ xs @ ds @ ps"
    unfolding ds_def ps_def using d by (simp add: trace_step [OF assms(2,3,4,1)] xs)
  have "\<not> list_ex is_off ds" "\<not> list_ex is_open ds" "\<not> list_ex is_off ps" "\<not> list_ex is_open ps"
    by (simp_all add: ds_def ps_def no_off_destroy_calls no_off_init_calls no_open_init_calls)
  then show "filter is_off (trace (step lib e c)) = filter is_off (trace c)"
    and "filter is_open (trace (step lib e c)) = filter is_open (trace c)"
    using xs' by (simp_all add: t filter_none)
qed

lemma step_unmount_offs:
  assumes "mounted c"
  shows "\<exists>pre. trace (step lib Unmount c) = trace c @ pre @ offs_of c
               \<and> \<not> list_ex is_open pre \<and> \<not> list_ex is_off pre"
proof -
  have "trace (step lib Unmount c) = trace c @ destroy_calls lib (init_cleanup_fn c) @ offs_of c"
    using assms by (simp add: step_def trace_unmount)
  then show ?thesis
    using no_off_destroy_calls by blast
qed

lemma step_init_changed:
  assumes "stable c" and "mounted c" and "enabled e c" and "e \<noteq> Unmount"
    and d: "current_init_deps (set_state e c) \<noteq> current_init_deps c"
  shows "\<exists>rest. trace (step lib e c) =
           trace (notify e c) @ destroy_calls lib (init_cleanup_fn c) @ rest"
  using d by (simp add: trace_step [OF assms(2,3,4,1)])

lemmas eval_defs =
  to_viewing_def to_failed_def to_cleared_def sample_mount_def mount_def commit_def Let_def
  quiet_library_def throwing_library_def sample_credentials_def step_def current_init_deps_def
  current_open_deps_def cleanup_init_def cleanup_open_def init_effect_def open_effect_def
  new_session_def session_offs_def try_console_error_def call_destroy_def unmount_def
  viewing_component_def failed_component_def cleared_component_def next_image_def init_guard_def

subsection \<open>The claims about the lifecycle\<close>

text \<open>
  C4. In every history of the component, each \<open>init\<close> call was made with
  username, password and API key present (on the library object it is
  called on). The effect body, run in a state \<open>x\<close>, calls \<open>init\<close> and sets
  \<open>initializing\<close> exactly when the guard passes; otherwise it changes nothing
  but the cleanup it returns, the empty one. So a step that leaves an input
  absent adds no \<open>init\<close> call and leaves \<open>initializing\<close>, \<open>initialized\<close> and
  \<open>error\<close> as the event set them; what it may still add is the cleanup of
  the previous initialization.
\<close>

theorem init_only_when_inputs_present:
  assumes "c = run lib es (mount lib k i m opts cr)"
  shows "list_all init_call_ok (trace c)
       \<and> (init_guard x \<longrightarrow>
            (\<exists>a. StreetSmartApi x = Some a \<and>
               init_effect x = x\<lparr>initializing := True,
                  trace := trace x @ [ApiInit a (targetElement x) (username x) (password x)
                                        (apiKey x) (initOptions x)],
                  init_pending := Suc (init_pending x),
                  init_cleanup_fn := InitDestroy a (targetElement x)\<rparr>))
       \<and> (\<not> init_guard x \<longrightarrow> init_effect x = x\<lparr>init_cleanup_fn := InitNoop\<rparr>)
       \<and> (mounted c \<and> enabled e c \<and> e \<noteq> Unmount \<and> \<not> init_guard (set_state e c) \<longrightarrow>
            filter is_init (trace (step lib e c)) = filter is_init (trace c)
            \<and> initializing (step lib e c) = initializing (set_state e c)
            \<and> initialized (step lib e c) = initialized (set_state e c)
            \<and> error (step lib e c) = error (set_state e c))"
proof (intro conjI impI)
  show "list_all init_call_ok (trace c)"
    using init_inv_run [OF init_inv_mount, of lib es lib k i m opts cr] assms
    by (simp add: init_inv_iff)
next
  assume "init_guard x"
  then show "\<exists>a. StreetSmartApi x = Some a \<and>
               init_effect x = x\<lparr>initializing := True,
                  trace := trace x @ [ApiInit a (targetElement x) (username x) (password x)
                                        (apiKey x) (initOptions x)],
                  init_pending := Suc (init_pending x),
                  init_cleanup_fn := InitDestroy a (targetElement x)\<rparr>"
    by (rule init_effect_cases)
next
  assume "\<not> init_guard x"
  then show "init_effect x = x\<lparr>init_cleanup_fn := InitNoop\<rparr>"
    by (rule init_effect_cases)
next
  assume h: "mounted c \<and> enabled e c \<and> e \<noteq> Unmount \<and> \<not> init_guard (set_state e c)"
  let ?x = "set_state e (notify e c)"
  have s: "step lib e c = commit lib ?x"
    using h by (simp add: step_mounted)
  have g: "\<not> init_guard ?x"
    using h by (simp add: deps_set_state_notify)
  show "filter is_init (trace (step lib e c)) = filter is_init (trace c)"
    using g
    by (simp add: s trace_commit init_calls_guard filter_no_init no_init_destroy_calls
        no_init_offs no_init_open_calls notify_trace_no_init)
  show "initializing (step lib e c) = initializing (set_state e c)"
    using g by (simp add: s initializing_commit ui_set_state_notify)
  show "initialized (step lib e c) = initialized (set_state e c)"
    by (simp add: s ui_set_state_notify)
  show "error (step lib e c) = error (set_state e c)"
    by (simp add: s ui_set_state_notify)
qed

theorem init_only_when_inputs_present_witness:
  "init_guard (viewing_component quiet_library)
   \<and> mounted (viewing_component quiet_library)
   \<and> enabled (SetCredentials JNull) (viewing_component quiet_library)
   \<and> \<not> init_guard (set_state (SetCredentials JNull) (viewing_component quiet_library))
   \<and> list_all init_call_ok (trace (viewing_component quiet_library))
   \<and> filter is_init (trace (viewing_component quiet_library))
      = [ApiInit 1 (Some 3) (JStr ''user'') (JStr ''secret'') (JStr ''key'') JUndefined]
   \<and> filter is_init (trace (step quiet_library (SetCredentials JNull)
                                (viewing_component quiet_library)))
      = filter is_init (trace (viewing_component quiet_library))
   \<and> trace (step quiet_library (SetCredentials JNull) (viewing_component quiet_library))
      = trace (viewing_component quiet_library) @ [ApiDestroy 1 (Some 3)]"
proof -
  have a: "viewing_component quiet_library =
      run quiet_library to_viewing
        (mount quiet_library (JStr ''key'') (JStr ''img-1'') (JBool True) JUndefined
           sample_credentials)"
    by (simp add: viewing_component_def sample_mount_def)
  have b: "init_guard (viewing_component quiet_library)"
    "mounted (viewing_component quiet_library)"
    "enabled (SetCredentials JNull) (viewing_component quiet_library)"
    "\<not> init_guard (set_state (SetCredentials JNull) (viewing_component quiet_library))"
    "filter is_init (trace (viewing_component quiet_library))
      = [ApiInit 1 (Some 3) (JStr ''user'') (JStr ''secret'') (JStr ''key'') JUndefined]"
    "trace (step quiet_library (SetCredentials JNull) (viewing_component quiet_library))
      = trace (viewing_component quiet_library) @ [ApiDestroy 1 (Some 3)]"
    by (simp_all add: eval_defs)
  note t = init_only_when_inputs_present [OF a,
      of "viewing_component quiet_library" "SetCredentials JNull"]
  have c: "list_all init_call_ok (trace (viewing_component quiet_library))"
    using t by (rule conjunct1)
  have d: "filter is_init (trace (step quiet_library (SetCredentials JNull)
                                (viewing_component quiet_library)))
      = filter is_init (trace (viewing_component quiet_library))"
    using t b(2,3,4) by blast
  show ?thesis
    using b c d by blast
qed

text \<open>
  C5. The cleanup of the first effect never throws, whatever \<open>destroy\<close>
  does. When an initialization was started and not yet torn down, the pending
  cleanup holds the library object and the target element of the latest
  \<open>init\<close> call; on unmount, and on every event that changes a dependency of
  the effect (library object, username, password, API key, reload counter),
  the step runs that cleanup first: \<open>destroy\<close> is called on that target
  element (when the library has the operation), and a value it throws is
  passed to \<open>console.error\<close> and goes no further.
\<close>

theorem destroy_on_teardown:
  assumes "c = run lib es (mount lib k i m opts cr)"
    and "init_cleanup_fn c = InitDestroy a t"
    and "mounted c" and "enabled e c"
    and "e = Unmount \<or> current_init_deps (set_state e c) \<noteq> current_init_deps c"
  shows "fst (run_init_cleanup lib cl tr) = None
       \<and> last_init (trace c) = Some (a, t)
       \<and> (\<exists>rest. trace (step lib e c) =
             snd (run_init_cleanup lib (InitDestroy a t) (trace (notify e c))) @ rest)
       \<and> (has_destroy lib a \<longrightarrow>
            run_init_cleanup lib (InitDestroy a t) tr =
              (None, tr @ ApiDestroy a t #
                 (case destroy_throws lib a t of None \<Rightarrow> [] | Some x \<Rightarrow> [ConsoleError [] x])))
       \<and> (\<not> has_destroy lib a \<longrightarrow> run_init_cleanup lib (InitDestroy a t) tr = (None, tr))"
proof (intro conjI impI)
  show "fst (run_init_cleanup lib cl tr) = None"
    by (simp add: run_init_cleanup_eq)
  have "init_inv c"
    using assms(1) init_inv_run [OF init_inv_mount] by simp
  then show "last_init (trace c) = Some (a, t)"
    using assms(2) by (simp add: init_inv_iff)
  have st: "stable c"
    using assms(1) stable_run [OF stable_mount] by simp
  show "\<exists>rest. trace (step lib e c) =
             snd (run_init_cleanup lib (InitDestroy a t) (trace (notify e c))) @ rest"
  proof (cases "e = Unmount")
    case True
    then show ?thesis
      using assms(2,3) by (simp add: step_def trace_unmount run_init_cleanup_eq)
  next
    case False
    then have "current_init_deps (set_state e c) \<noteq> current_init_deps c"
      using assms(5) by simp
    then show ?thesis
      using step_init_changed [OF st assms(3,4) False, of lib] assms(2)
      by (simp add: run_init_cleanup_eq)
  qed
next
  assume "has_destroy lib a"
  then show "run_init_cleanup lib (InitDestroy a t) tr =
              (None, tr @ ApiDestroy a t #
                 (case destroy_throws lib a t of None \<Rightarrow> [] | Some x \<Rightarrow> [ConsoleError [] x]))"
    by (rule run_init_cleanup_destroy)
next
  assume "\<not> has_destroy lib a"
  then show "run_init_cleanup lib (InitDestroy a t) tr = (None, tr)"
    by (rule run_init_cleanup_destroy)
qed

theorem destroy_on_teardown_witness:
  "init_cleanup_fn (viewing_component throwing_library) = InitDestroy 1 (Some 3)
   \<and> mounted (viewing_component throwing_library)
   \<and> enabled Unmount (viewing_component throwing_library)
   \<and> has_destroy throwing_library 1
   \<and> destroy_throws throwing_library 1 (Some 3) = Some (JStr ''destroy failed'')
   \<and> fst (run_init_cleanup throwing_library (InitDestroy 1 (Some 3)) []) = None
   \<and> run_init_cleanup throwing_library (InitDestroy 1 (Some 3)) []
        = (None, [ApiDestroy 1 (Some 3), ConsoleError [] (JStr ''destroy failed'')])
   \<and> last_init (trace (viewing_component throwing_library)) = Some (1, Some 3)
   \<and> trace (step throwing_library Unmount (viewing_component throwing_library))
        = trace (viewing_component throwing_library)
          @ [ApiDestroy 1 (Some 3), ConsoleError [] (JStr ''destroy failed''),
             ViewerOff 5 VIEW_CHANGE (Some (ViewChangeHandler 0)),
             ViewerOff 5 RECORDING_CLICK (Some (RecordingClickHandler 0))]"
proof -
  have a: "viewing_component throwing_library =
      run throwing_library to_viewing
        (mount throwing_library (JStr ''key'') (JStr ''img-1'') (JBool True) JUndefined
           sample_credentials)"
    by (simp add: viewing_component_def sample_mount_def)
  have b: "init_cleanup_fn (viewing_component throwing_library) = InitDestroy 1 (Some 3)"
    and c: "mounted (viewing_component throwing_library)"
    and d: "enabled Unmount (viewing_component throwing_library)"
    and e: "has_destroy throwing_library 1"
      "destroy_throws throwing_library 1 (Some 3) = Some (JStr ''destroy failed'')"
    by (simp_all add: eval_defs)
  have f: "trace (step throwing_library Unmount (viewing_component throwing_library))
        = trace (viewing_component throwing_library)
          @ [ApiDestroy 1 (Some 3), ConsoleError [] (JStr ''destroy failed''),
             ViewerOff 5 VIEW_CHANGE (Some (ViewChangeHandler 0)),
             ViewerOff 5 RECORDING_CLICK (Some (RecordingClickHandler 0))]"
    by (simp add: eval_defs)
  note t = destroy_on_teardown [OF a b c d disjI1 [OF refl], of "InitDestroy 1 (Some 3)" "[]"]
  have g: "fst (run_init_cleanup throwing_library (InitDestroy 1 (Some 3)) []) = None"
    using t by (rule conjunct1)
  have h: "last_init (trace (viewing_component throwing_library)) = Some (1, Some 3)"
    using t by blast
  have "run_init_cleanup throwing_library (InitDestroy 1 (Some 3)) [] =
      (None, [] @ ApiDestroy 1 (Some 3) #
         (case destroy_throws throwing_library 1 (Some 3) of
            None \<Rightarrow> [] | Some x \<Rightarrow> [ConsoleError [] x]))"
    using t e(1) by blast
  then have i: "run_init_cleanup throwing_library (InitDestroy 1 (Some 3)) []
        = (None, [ApiDestroy 1 (Some 3), ConsoleError [] (JStr ''destroy failed'')])"
    by (simp add: throwing_library_def)
  show ?thesis
    using b c d e f g h i by blast
qed

text \<open>
  C3. In every history of the component:
  \<^item> each \<open>off\<close> call names a handler that is at that moment subscribed to
    that event on that same viewer, so never another or an already
    unsubscribed instance;
  \<^item> the pending cleanup of the open-image effect unsubscribes nothing while
    its own cell holds no viewer, and otherwise unsubscribes exactly the two
    handlers of its own cell from the viewer of that cell, on which both
    were subscribed;
  \<^item> a step that changes the library object, \<open>initialized\<close> or the image
    identifier makes these \<open>off\<close> calls before any \<open>open\<close> call of the step
    and makes no other \<open>off\<close> call; unmounting makes them too;
  \<^item> a step that changes none of the three makes no \<open>off\<close> and no \<open>open\<close> call.
\<close>

theorem session_cleanup_unsubscribes:
  assumes "c = run lib es (mount lib k i m opts cr)"
  shows "subscriptions (trace c) [] \<noteq> None
       \<and> (open_cleanup_fn c = OpenOff n \<longrightarrow>
            n < length (sessions c)
            \<and> (panoramaViewer (sessions c ! n) = None \<longrightarrow>
                 run_open_cleanup (open_cleanup_fn c) (sessions c) [] = [])
            \<and> (panoramaViewer (sessions c ! n) = Some v \<longrightarrow>
                 run_open_cleanup (open_cleanup_fn c) (sessions c) [] =
                   [ViewerOff v VIEW_CHANGE (Some (ViewChangeHandler n)),
                    ViewerOff v RECORDING_CLICK (Some (RecordingClickHandler n))]
                 \<and> ViewerOn v VIEW_CHANGE (ViewChangeHandler n) \<in> set (trace c)
                 \<and> ViewerOn v RECORDING_CLICK (RecordingClickHandler n) \<in> set (trace c)))
       \<and> (open_cleanup_fn c = OpenNoop \<longrightarrow>
            run_open_cleanup (open_cleanup_fn c) (sessions c) [] = [])
       \<and> (mounted c \<and> enabled e c \<and> e \<noteq> Unmount
            \<and> current_open_deps (set_state e c) \<noteq> current_open_deps c \<longrightarrow>
            (\<exists>pre post. trace (step lib e c) =
                 trace c @ pre @ run_open_cleanup (open_cleanup_fn c) (sessions c) [] @ post
               \<and> \<not> list_ex is_open pre \<and> \<not> list_ex is_off pre \<and> \<not> list_ex is_off post))
       \<and> (mounted c \<and> enabled e c \<and> e \<noteq> Unmount
            \<and> current_open_deps (set_state e c) = current_open_deps c \<longrightarrow>
            filter is_off (trace (step lib e c)) = filter is_off (trace c)
            \<and> filter is_open (trace (step lib e c)) = filter is_open (trace c))
       \<and> (mounted c \<longrightarrow>
            (\<exists>pre. trace (step lib Unmount c) =
                 trace c @ pre @ run_open_cleanup (open_cleanup_fn c) (sessions c) []
               \<and> \<not> list_ex is_open pre \<and> \<not> list_ex is_off pre))"
proof -
  have inv: "subs_inv c"
    using assms subs_inv_run [OF subs_inv_mount] by simp
  have st: "stable c"
    using assms stable_run [OF stable_mount] by simp
  have r: "run_open_cleanup (open_cleanup_fn c) (sessions c) [] = offs_of c"
    by (simp add: run_open_cleanup_eq)
  show ?thesis
    unfolding r
  proof (intro conjI impI)
    show "subscriptions (trace c) [] \<noteq> None"
      using inv by (auto simp: subs_inv_iff)
  next
    assume "open_cleanup_fn c = OpenOff n"
    then show "n < length (sessions c)" by (rule current_cell(1) [OF inv])
  next
    assume "open_cleanup_fn c = OpenOff n" "panoramaViewer (sessions c ! n) = None"
    then show "offs_of c = []" by (rule current_cell(2) [OF inv])
  next
    assume a: "open_cleanup_fn c = OpenOff n" "panoramaViewer (sessions c ! n) = Some v"
    show "offs_of c = [ViewerOff v VIEW_CHANGE (Some (ViewChangeHandler n)),
                    ViewerOff v RECORDING_CLICK (Some (RecordingClickHandler n))]"
      using current_cell(3) [OF inv a] by simp
    show "ViewerOn v VIEW_CHANGE (ViewChangeHandler n) \<in> set (trace c)"
      using current_cell(3) [OF inv a] by simp
    show "ViewerOn v RECORDING_CLICK (RecordingClickHandler n) \<in> set (trace c)"
      using current_cell(3) [OF inv a] by simp
  next
    assume "open_cleanup_fn c = OpenNoop"
    then show "offs_of c = []" by (simp add: offs_of_def)
  next
    assume "mounted c \<and> enabled e c \<and> e \<noteq> Unmount
            \<and> current_open_deps (set_state e c) \<noteq> current_open_deps c"
    then show "\<exists>pre post. trace (step lib e c) = trace c @ pre @ offs_of c @ post
               \<and> \<not> list_ex is_open pre \<and> \<not> list_ex is_off pre \<and> \<not> list_ex is_off post"
      using step_open_changed [OF st] by blast
  next
    assume h: "mounted c \<and> enabled e c \<and> e \<noteq> Unmount
            \<and> current_open_deps (set_state e c) = current_open_deps c"
    then show "filter is_off (trace (step lib e c)) = filter is_off (trace c)"
      using step_open_unchanged(1) [OF st] by blast
    show "filter is_open (trace (step lib e c)) = filter is_open (trace c)"
      using h step_open_unchanged(2) [OF st] by blast
  next
    assume "mounted c"
    then show "\<exists>pre. trace (step lib Unmount c) = trace c @ pre @ offs_of c
               \<and> \<not> list_ex is_open pre \<and> \<not> list_ex is_off pre"
      by (rule step_unmount_offs)
  qed
qed

theorem session_cleanup_unsubscribes_witness:
  "open_cleanup_fn (viewing_component quiet_library) = OpenOff 0
   \<and> panoramaViewer (sessions (viewing_component quiet_library) ! 0) = Some 5
   \<and> mounted (viewing_component quiet_library)
   \<and> enabled next_image (viewing_component quiet_library)
   \<and> current_open_deps (set_state next_image (viewing_component quiet_library))
        \<noteq> current_open_deps (viewing_component quiet_library)
   \<and> subscriptions (trace (viewing_component quiet_library)) [] \<noteq> None
   \<and> run_open_cleanup (open_cleanup_fn (viewing_component quiet_library))
        (sessions (viewing_component quiet_library)) []
      = [ViewerOff 5 VIEW_CHANGE (Some (ViewChangeHandler 0)),
         ViewerOff 5 RECORDING_CLICK (Some (RecordingClickHandler 0))]
   \<and> ViewerOn 5 VIEW_CHANGE (ViewChangeHandler 0) \<in> set (trace (viewing_component quiet_library))
   \<and> trace (step quiet_library next_image (viewing_component quiet_library))
      = trace (viewing_component quiet_library)
        @ [ViewerOff 5 VIEW_CHANGE (Some (ViewChangeHandler 0)),
           ViewerOff 5 RECORDING_CLICK (Some (RecordingClickHandler 0)),
           ApiOpen 1 (JStr ''img-2'') ''EPSG:4326'' 1]"
proof -
  have a: "viewing_component quiet_library =
      run quiet_library to_viewing
        (mount quiet_library (JStr ''key'') (JStr ''img-1'') (JBool True) JUndefined
           sample_credentials)"
    by (simp add: viewing_component_def sample_mount_def)
  have b: "open_cleanup_fn (viewing_component quiet_library) = OpenOff 0"
    "panoramaViewer (sessions (viewing_component quiet_library) ! 0) = Some 5"
    "mounted (viewing_component quiet_library)"
    "enabled next_image (viewing_component quiet_library)"
    "current_open_deps (set_state next_image (viewing_component quiet_library))
        \<noteq> current_open_deps (viewing_component quiet_library)"
    by (simp_all add: eval_defs)
  have c: "trace (step quiet_library next_image (viewing_component quiet_library))
      = trace (viewing_component quiet_library)
        @ [ViewerOff 5 VIEW_CHANGE (Some (ViewChangeHandler 0)),
           ViewerOff 5 RECORDING_CLICK (Some (RecordingClickHandler 0)),
           ApiOpen 1 (JStr ''img-2'') ''EPSG:4326'' 1]"
    by (simp add: eval_defs)
  note t = session_cleanup_unsubscribes [OF a, of 0 5 next_image]
  have d: "subscriptions (trace (viewing_component quiet_library)) [] \<noteq> None"
    using t by (rule conjunct1)
  have e: "run_open_cleanup (open_cleanup_fn (viewing_component quiet_library))
        (sessions (viewing_component quiet_library)) []
      = [ViewerOff 5 VIEW_CHANGE (Some (ViewChangeHandler 0)),
         ViewerOff 5 RECORDING_CLICK (Some (RecordingClickHandler 0))]
   \<and> ViewerOn 5 VIEW_CHANGE (ViewChangeHandler 0) \<in> set (trace (viewing_component quiet_library))"
    using t b(1,2) by blast
  show ?thesis
    using b c d e by blast
qed

text \<open>
  C8, as the code has it. A click on the reload button clears the error and
  adds exactly 1 to the reload counter, which re-runs the first effect. When
  the library object, username, password and API key are all present, the
  step calls \<open>destroy\<close> once, on the library object and target element of the
  latest \<open>init\<close> call, and then \<open>init\<close> once (with a \<open>console.error\<close> in between
  if \<open>destroy\<close> threw). When one of them is absent the step makes no call.
\<close>

theorem reload_click:
  assumes "c = run lib es (mount lib k i m opts cr)" and "enabled ReloadClick c"
  shows "error (step lib ReloadClick c) = JNull
       \<and> reload (step lib ReloadClick c) = reload c + 1
       \<and> (init_guard c \<longrightarrow>
            (\<exists>a t. init_cleanup_fn c = InitDestroy a t \<and> StreetSmartApi c = Some a
               \<and> last_init (trace c) = Some (a, t)
               \<and> trace (step lib ReloadClick c) =
                   snd (run_init_cleanup lib (InitDestroy a t) (trace c))
                   @ [ApiInit a (targetElement c) (username c) (password c) (apiKey c)
                        (initOptions c)]
               \<and> (has_destroy lib a \<longrightarrow>
                    trace (step lib ReloadClick c) =
                      trace c @ [ApiDestroy a t]
                        @ (case destroy_throws lib a t of
                             None \<Rightarrow> [] | Some x \<Rightarrow> [ConsoleError [] x])
                        @ [ApiInit a (targetElement c) (username c) (password c) (apiKey c)
                             (initOptions c)])))
       \<and> (\<not> init_guard c \<longrightarrow> trace (step lib ReloadClick c) = trace c)"
proof -
  have m: "mounted c" using assms(2) by simp
  have st: "stable c"
    using assms(1) stable_run [OF stable_mount] by simp
  have iv: "init_inv c"
    using assms(1) init_inv_run [OF init_inv_mount] by simp
  have s: "step lib ReloadClick c = commit lib (c\<lparr>error := JNull, reload := reload c + 1\<rparr>)"
    using assms(2) by (simp add: step_def)
  have d: "current_init_deps (set_state ReloadClick c) \<noteq> current_init_deps c"
    "current_open_deps (set_state ReloadClick c) = current_open_deps c"
    by (simp_all add: current_init_deps_def current_open_deps_def)
  have ic: "init_calls (set_state ReloadClick c) = init_calls c"
    by (simp add: init_calls_def init_guard_def split: option.splits)
  have tr: "trace (step lib ReloadClick c) =
      trace c @ destroy_calls lib (init_cleanup_fn c) @ init_calls c"
    using d ic by (simp add: trace_step [OF m assms(2) _ st])
  have cm: "cleanup_matches c"
    using st m by (simp add: stable_def)
  show ?thesis
  proof (intro conjI impI)
    show "error (step lib ReloadClick c) = JNull" by (simp add: s)
    show "reload (step lib ReloadClick c) = reload c + 1" by (simp add: s)
  next
    assume g: "init_guard c"
    then obtain a t where at: "init_cleanup_fn c = InitDestroy a t" "StreetSmartApi c = Some a"
      using cm by (cases "init_cleanup_fn c") (auto simp: cleanup_matches_iff)
    have li: "last_init (trace c) = Some (a, t)"
      using iv at(1) by (simp add: init_inv_iff)
    have c1: "init_calls c = [ApiInit a (targetElement c) (username c) (password c) (apiKey c)
                        (initOptions c)]"
      using g at(2) by (simp add: init_calls_def)
    have t1: "trace (step lib ReloadClick c) =
                   snd (run_init_cleanup lib (InitDestroy a t) (trace c))
                   @ [ApiInit a (targetElement c) (username c) (password c) (apiKey c)
                        (initOptions c)]"
      by (simp add: tr at(1) c1 run_init_cleanup_eq)
    have t2: "has_destroy lib a \<longrightarrow>
                    trace (step lib ReloadClick c) =
                      trace c @ [ApiDestroy a t]
                        @ (case destroy_throws lib a t of
                             None \<Rightarrow> [] | Some x \<Rightarrow> [ConsoleError [] x])
                        @ [ApiInit a (targetElement c) (username c) (password c) (apiKey c)
                             (initOptions c)]"
      by (simp add: tr at(1) c1)
    show "\<exists>a t. init_cleanup_fn c = InitDestroy a t \<and> StreetSmartApi c = Some a
               \<and> last_init (trace c) = Some (a, t)
               \<and> trace (step lib ReloadClick c) =
                   snd (run_init_cleanup lib (InitDestroy a t) (trace c))
                   @ [ApiInit a (targetElement c) (username c) (password c) (apiKey c)
                        (initOptions c)]
               \<and> (has_destroy lib a \<longrightarrow>
                    trace (step lib ReloadClick c) =
                      trace c @ [ApiDestroy a t]
                        @ (case destroy_throws lib a t of
                             None \<Rightarrow> [] | Some x \<Rightarrow> [ConsoleError [] x])
                        @ [ApiInit a (targetElement c) (username c) (password c) (apiKey c)
                             (initOptions c)])"
      using at li t1 t2 by blast
  next
    assume g: "\<not> init_guard c"
    then have "init_cleanup_fn c = InitNoop"
      using cm by (cases "init_cleanup_fn c") (auto simp: cleanup_matches_iff)
    then show "trace (step lib ReloadClick c) = trace c"
      using g by (simp add: tr init_calls_guard)
  qed
qed

theorem reload_click_witness:
  "enabled ReloadClick (failed_component throwing_library)
   \<and> init_guard (failed_component throwing_library)
   \<and> has_destroy throwing_library 1
   \<and> error (step throwing_library ReloadClick (failed_component throwing_library)) = JNull
   \<and> reload (failed_component throwing_library) = 1
   \<and> reload (step throwing_library ReloadClick (failed_component throwing_library)) = 2
   \<and> trace (step throwing_library ReloadClick (failed_component throwing_library))
      = trace (failed_component throwing_library)
        @ [ApiDestroy 1 (Some 3), ConsoleError [] (JStr ''destroy failed''),
           ApiInit 1 (Some 3) (JStr ''user'') (JStr ''secret'') (JStr ''key'') JUndefined]"
proof -
  have a: "failed_component throwing_library =
      run throwing_library to_failed
        (mount throwing_library (JStr ''key'') (JStr ''img-1'') (JBool True) JUndefined
           sample_credentials)"
    by (simp add: failed_component_def sample_mount_def)
  have b: "enabled ReloadClick (failed_component throwing_library)"
    and c: "init_guard (failed_component throwing_library)"
      "has_destroy throwing_library 1"
      "reload (failed_component throwing_library) = 1"
    by (simp_all add: eval_defs)
  have d: "trace (step throwing_library ReloadClick (failed_component throwing_library))
      = trace (failed_component throwing_library)
        @ [ApiDestroy 1 (Some 3), ConsoleError [] (JStr ''destroy failed''),
           ApiInit 1 (Some 3) (JStr ''user'') (JStr ''secret'') (JStr ''key'') JUndefined]"
    by (simp add: eval_defs)
  note t = reload_click [OF a b]
  have e: "error (step throwing_library ReloadClick (failed_component throwing_library)) = JNull"
    using t by (rule conjunct1)
  have "reload (step throwing_library ReloadClick (failed_component throwing_library))
          = reload (failed_component throwing_library) + 1"
    using t by blast
  then have f: "reload (step throwing_library ReloadClick (failed_component throwing_library)) = 2"
    by (simp add: c(3))
  show ?thesis
    using b c d e f by blast
qed

text \<open>
  C8 as stated fails when an input is absent at the click. After the library
  loaded, \<open>init\<close> resolved and \<open>open\<close> was rejected, the user clears the
  credentials: the initialization is destroyed then. The alert still shows the
  reload button (\<open>initialized\<close> is never reset and the error is set); the
  click clears the error and bumps the counter, but the effect's guard fails:
  neither \<open>destroy\<close> nor \<open>init\<close> is called.
\<close>

theorem reload_click_cleared_credentials_counterexample:
  "enabled ReloadClick cleared_component
   \<and> initialized cleared_component
   \<and> truthy (error cleared_component)
   \<and> trace cleared_component
      = [ApiInit 1 (Some 3) (JStr ''user'') (JStr ''secret'') (JStr ''key'') JUndefined,
         ApiOpen 1 (JStr ''img-1'') ''EPSG:4326'' 0,
         ConsoleError ''Cyclomedia API: open: error: '' (JStr ''not found''),
         ApiDestroy 1 (Some 3)]
   \<and> reload (step quiet_library ReloadClick cleared_component) = reload cleared_component + 1
   \<and> error (step quiet_library ReloadClick cleared_component) = JNull
   \<and> trace (step quiet_library ReloadClick cleared_component) = trace cleared_component"
  by (simp add: eval_defs)

end
